theory Spec2Isabelle
  imports Complex_Main
begin

section \<open>Arrays and errors\<close>

text \<open>
  The embedding reads a numpy float as a real number (no rounding, no nan, no inf), a
  one-dimensional array as a list and a two-dimensional array as the list of its rows.
  It covers arguments whose dimensions fit together; where numpy raises on the sizes a
  claim is about (a negative dimension, an index out of range) the raise is a branch of
  the model. A Python exception is a value of the type \<open>error\<close>. The last value,
  \<open>NotANumber\<close>, is no exception: it marks a call of an external routine whose result is
  nan, for which the real numbers have no value. The Python code goes on with nan at that
  point; the embedding stops there and says nothing about the rest of such a run.
\<close>

datatype error = ValueError | IndexError | UnboundLocalError | LinAlgError | TypeError
  | NotANumber

type_synonym vec = "real list"
type_synonym mat = "real list list"

definition nrows :: "mat \<Rightarrow> nat" where
  "nrows M = length M"

definition ncols :: "mat \<Rightarrow> nat" where
  "ncols M = (case M of [] \<Rightarrow> 0 | r # _ \<Rightarrow> length r)"

definition np_zeros :: "nat \<Rightarrow> nat \<Rightarrow> mat" where
  "np_zeros r c = replicate r (replicate c 0)"

definition eye_mat :: "nat \<Rightarrow> nat \<Rightarrow> int \<Rightarrow> mat" where
  "eye_mat n m k = map (\<lambda>i. map (\<lambda>j. if int j = int i + k then 1 else 0) [0..<m]) [0..<n]"

definition np_eye :: "int \<Rightarrow> int \<Rightarrow> int \<Rightarrow> error + mat" where
  \<comment> \<open>\<open>np.eye(N, M, k)\<close>: allocates \<open>zeros((N, M))\<close> first, which raises on a negative size.\<close>
  "np_eye N M k =
     (if N < 0 \<or> M < 0 then Inl ValueError else Inr (eye_mat (nat N) (nat M) k))"

definition neg_vec :: "vec \<Rightarrow> vec" where
  "neg_vec v = map uminus v"

definition smul_vec :: "real \<Rightarrow> vec \<Rightarrow> vec" where
  "smul_vec c v = map ((*) c) v"

definition np_sub :: "vec \<Rightarrow> vec \<Rightarrow> error + vec" where
  \<comment> \<open>\<open>u - v\<close> on one-dimensional arrays, with numpy's broadcasting of a length-one side.\<close>
  "np_sub u v =
     (if length u = length v then Inr (map2 (-) u v)
      else if length u = 1 then Inr (map (\<lambda>y. u ! 0 - y) v)
      else if length v = 1 then Inr (map (\<lambda>x. x - v ! 0) u)
      else Inl ValueError)"

definition mT :: "mat \<Rightarrow> mat" where
  \<comment> \<open>\<open>M.T\<close>\<close>
  "mT M = map (\<lambda>j. map (\<lambda>r. r ! j) M) [0..<ncols M]"

definition matmul :: "mat \<Rightarrow> mat \<Rightarrow> mat" where
  \<comment> \<open>\<open>A @ B\<close>\<close>
  "matmul A B =
     map (\<lambda>i. map (\<lambda>j. sum_list (map (\<lambda>k. A ! i ! k * B ! k ! j) [0..<ncols A]))
                 [0..<ncols B])
         [0..<nrows A]"

definition mat_add :: "mat \<Rightarrow> mat \<Rightarrow> mat" where
  "mat_add A B = map2 (map2 (+)) A B"

definition mat_sub :: "mat \<Rightarrow> mat \<Rightarrow> mat" where
  "mat_sub A B = map2 (map2 (-)) A B"

definition smul :: "real \<Rightarrow> mat \<Rightarrow> mat" where
  "smul c M = map (map ((*) c)) M"

definition np_outer :: "mat \<Rightarrow> mat \<Rightarrow> mat" where
  \<comment> \<open>\<open>np.outer(u, v)\<close>: both arguments are flattened first.\<close>
  "np_outer u v = map (\<lambda>x. map (\<lambda>y. x * y) (concat v)) (concat u)"

definition np_square :: "mat \<Rightarrow> mat" where
  "np_square M = map (map (\<lambda>x. x * x)) M"

definition scal :: "mat \<Rightarrow> real" where
  \<comment> \<open>The entry of an array of shape (1, 1), as numpy stores it into \<open>y[n]\<close>.\<close>
  "scal M = M ! 0 ! 0"

definition np_hstack :: "mat list \<Rightarrow> mat" where
  \<comment> \<open>\<open>np.hstack\<close> of a stack of two-dimensional arrays: the rows side by side.\<close>
  "np_hstack ms =
     (case ms of [] \<Rightarrow> [] | m # _ \<Rightarrow> map (\<lambda>i. concat (map (\<lambda>q. q ! i) ms)) [0..<length m])"

definition toeplitz :: "vec \<Rightarrow> mat" where
  \<comment> \<open>\<open>scipy.linalg.toeplitz(c)\<close> of a real first column: entry \<open>(i, j)\<close> is \<open>c[|i - j|]\<close>.\<close>
  "toeplitz c =
     map (\<lambda>i. map (\<lambda>j. c ! (if i \<le> j then j - i else i - j)) [0..<length c]) [0..<length c]"

definition is_mat :: "nat \<Rightarrow> nat \<Rightarrow> mat \<Rightarrow> bool" where
  \<comment> \<open>An array of shape \<open>(r, c)\<close>.\<close>
  "is_mat r c M = (length M = r \<and> list_all (\<lambda>row. length row = c) M)"

definition mk_mat :: "nat \<Rightarrow> nat \<Rightarrow> (nat \<Rightarrow> nat \<Rightarrow> real) \<Rightarrow> mat" where
  \<comment> \<open>The array of shape \<open>(n, m)\<close> with the entries \<open>f i j\<close>.\<close>
  "mk_mat n m f = map (\<lambda>i. map (\<lambda>j. f i j) [0..<m]) [0..<n]"

definition mat_sum :: "mat \<Rightarrow> real" where
  \<comment> \<open>\<open>np.sum(M)\<close>\<close>
  "mat_sum M = sum_list (map sum_list M)"

section \<open>The state-space converter \<open>_tf2ss\<close>\<close>

text \<open>
  \<^verbatim>\<open>
  p = len(a) - 1
  A = np.vstack([np.eye(p-1, p, k=1), -a[1:][::-1]])
  B = np.zeros((p, 1))
  B[-1] = 1
  C = np.expand_dims((b[1:] - b[0] * a[1:])[::-1], axis=0)
  D = np.ones((1,1))*b[0]
  return A, B, C, D
  \<close>
  \<open>np.eye(p-1, p, k=1)\<close> raises for \<open>p < 1\<close>, \<open>b[0]\<close> raises on an empty \<open>b\<close>, and the
  subtraction raises when the two slices do not broadcast.
\<close>

definition tf2ss :: "vec \<Rightarrow> vec \<Rightarrow> error + (mat \<times> mat \<times> mat \<times> mat)" where
  "tf2ss b a =
     (let p = int (length a) - 1 in
      case np_eye (p - 1) p 1 of
        Inl e \<Rightarrow> Inl e
      | Inr I \<Rightarrow>
          (let A = I @ [neg_vec (rev (drop 1 a))];
               B = (np_zeros (nat p) 1)[nat p - 1 := [1]]
           in case b of
                [] \<Rightarrow> Inl IndexError
              | b0 # _ \<Rightarrow>
                  (case np_sub (drop 1 b) (smul_vec b0 (drop 1 a)) of
                     Inl e \<Rightarrow> Inl e
                   | Inr c \<Rightarrow> Inr (A, B, [rev c], [[b0]]))))"

text \<open>
  The realization in the words of the specification: \<open>A\<close> is the companion-type matrix
  (ones on the superdiagonal, last row the negated, reversed \<open>a[1:]\<close>), \<open>B\<close> is the unit
  vector with its one in the last entry, \<open>C\<close> is \<open>b[1:] - b[0] a[1:]\<close> reversed and \<open>D\<close> is
  \<open>b[0]\<close>.
\<close>

definition companion :: "vec \<Rightarrow> mat" where
  "companion a =
     (let p = length a - 1 in
      map (\<lambda>i. map (\<lambda>j. if Suc i < p then (if j = Suc i then 1 else 0) else - (a ! (p - j)))
                 [0..<p])
          [0..<p])"

definition unit_last :: "nat \<Rightarrow> mat" where
  "unit_last p = map (\<lambda>i. [if Suc i = p then 1 else 0]) [0..<p]"

definition output_row :: "vec \<Rightarrow> vec \<Rightarrow> mat" where
  "output_row b a =
     (let p = length a - 1 in [map (\<lambda>j. b ! (p - j) - b ! 0 * a ! (p - j)) [0..<p]])"

section \<open>The initial-state solver\<close>

text \<open>
  The linear solvers and the impulse response come from scipy; the embedding takes them
  as parameters. \<open>solve M R\<close> is \<open>scipy.linalg.solve(M, R)\<close>, \<open>solve_discrete_lyapunov A Q\<close>
  is the function of that name, and \<open>dimpulse b a n\<close> is
  \<open>scipy.signal.dimpulse((b, a, 1), x0=0.0, t=np.arange(0, n))[1][0]\<close>, flattened. Each of
  them may raise.
\<close>

record externals =
  solve :: "mat \<Rightarrow> mat \<Rightarrow> error + mat"
  solve_discrete_lyapunov :: "mat \<Rightarrow> mat \<Rightarrow> error + mat"
  dimpulse :: "vec \<Rightarrow> vec \<Rightarrow> nat \<Rightarrow> error + vec"

text \<open>The dictionary with the keys \<open>z\<close>, \<open>dz\<close>, \<open>P\<close>, \<open>system\<close> and \<open>corr_unc\<close>.\<close>

record internal_state =
  st_z :: mat
  st_dz :: mat
  st_P :: mat
  st_system :: "mat \<times> mat \<times> mat \<times> mat"
  st_corr_unc :: real

text \<open>
  \<^verbatim>\<open>
  def _get_derivative_A(size_A):
      dA = np.zeros((size_A, size_A, size_A))
      for k in range(size_A):
          dA[k, -1, -(k+1)] = -1
      return dA
  \<close>
\<close>

definition get_derivative_A :: "nat \<Rightarrow> mat list" where
  "get_derivative_A n =
     map (\<lambda>k. (np_zeros n n)[n - 1 := (replicate n 0)[n - (k + 1) := - 1]]) [0..<n]"

text \<open>
  \<^verbatim>\<open>
  h_theta = scipy.signal.dimpulse((b, a, 1), x0 = 0.0, t=np.arange(0, len(Ux), step=1))[1][0]
  corr_unc = np.sum(scipy.linalg.toeplitz(Ux) + scipy.linalg.toeplitz(h_theta))
  \<close>
\<close>

definition get_corr_unc :: "externals \<Rightarrow> vec \<Rightarrow> vec \<Rightarrow> vec \<Rightarrow> error + real" where
  "get_corr_unc ext b a Ux =
     (case dimpulse ext b a (length Ux) of
        Inl e \<Rightarrow> Inl e
      | Inr h_theta \<Rightarrow> Inr (mat_sum (mat_add (toeplitz Ux) (toeplitz h_theta))))"

text \<open>
  \<^verbatim>\<open>
  [A, B, C, D] = _tf2ss(b, a)
  p = len(A)
  IminusA = np.eye(p) - A
  dA = _get_derivative_A(p)
  zs = scipy.linalg.solve(IminusA, B) * x0
  dzs = scipy.linalg.solve(IminusA, np.hstack(dA@zs))
  Ps = scipy.linalg.solve_discrete_lyapunov(A, U0**2 * np.outer(B,B))
  if isinstance(Ux, np.ndarray):
      corr_unc = _get_corr_unc(b, a, Ux)
  else:
      corr_unc = 0
  \<close>
  The argument \<open>Ux\<close> is \<open>None\<close> or an array.
\<close>

definition get_initial_internal_state ::
  "externals \<Rightarrow> vec \<Rightarrow> vec \<Rightarrow> real \<Rightarrow> real \<Rightarrow> vec option \<Rightarrow> error + internal_state" where
  "get_initial_internal_state ext b a x0 U0 Ux =
     (case tf2ss b a of
        Inl e \<Rightarrow> Inl e
      | Inr (A, B, C, D) \<Rightarrow>
          (let p = length A;
               IminusA = mat_sub (eye_mat p p 0) A;
               dA = get_derivative_A p
           in case solve ext IminusA B of
                Inl e \<Rightarrow> Inl e
              | Inr s \<Rightarrow>
                  (let zs = smul x0 s
                   in case solve ext IminusA (np_hstack (map (\<lambda>dAk. matmul dAk zs) dA)) of
                        Inl e \<Rightarrow> Inl e
                      | Inr dzs \<Rightarrow>
                          (case solve_discrete_lyapunov ext A (smul (U0 * U0) (np_outer B B)) of
                             Inl e \<Rightarrow> Inl e
                           | Inr Ps \<Rightarrow>
                               (case (case Ux of Some u \<Rightarrow> get_corr_unc ext b a u
                                               | None \<Rightarrow> Inr 0) of
                                  Inl e \<Rightarrow> Inl e
                                | Inr cu \<Rightarrow>
                                    Inr \<lparr>st_z = zs, st_dz = dzs, st_P = Ps,
                                         st_system = (A, B, C, D), st_corr_unc = cu\<rparr>)))))"

text \<open>
  The right-hand side \<open>dA z\<close> of the second system in the words of the specification:
  \<open>dA\<close> is the tensor of the partial derivatives of \<open>A\<close> with respect to the denominator
  coefficients, \<open>dA_entry p k i j\<close> being the derivative of \<open>A[i][j]\<close> with respect to
  \<open>a[k+1]\<close>, and column \<open>k\<close> of \<open>dA z\<close> is that derivative applied to \<open>z\<close>.
\<close>

definition dA_entry :: "nat \<Rightarrow> nat \<Rightarrow> nat \<Rightarrow> nat \<Rightarrow> real" where
  "dA_entry p k i j = (if Suc i = p \<and> j + k + 1 = p then - 1 else 0)"

definition dA_times :: "nat \<Rightarrow> mat \<Rightarrow> mat" where
  "dA_times p z = mk_mat p p (\<lambda>i k. \<Sum>j<p. dA_entry p k i j * z ! j ! 0)"

section \<open>The propagator \<open>IIRuncFilter\<close>\<close>

text \<open>
  One pass of the loop body, for the sample \<open>x[n]\<close> and the state \<open>(z, dz, P)\<close>:
  \<^verbatim>\<open>
  phi[:p] = np.transpose(cT @ dz - np.transpose(b0 * z[::-1]))
  phi[p] = np.dot(-a[1:][::-1], z) + x[n]
  phi[p+1:] = z[::-1]
  y[n] = np.dot(cT, z) + b0 * x[n]
  if kind == "diag":
      Uy[n] = phi.T @ Uab @ phi + cT @ P @ cT.T + np.square(b0 * Ux[n])
  else:  # "corr"
      Uy[n] = phi.T @ Uab @ phi + corr_unc
  if kind == "diag":
      P = A @ P @ A.T + np.square(Ux[n]) * np.outer(bs, bs)
  else:  # "corr"
      P = A @ P @ A.T + Ux[0] * np.outer(bs, bs)
  dA_z = np.vstack((np.zeros((p-1, p)), -z[::-1].T))
  dz = A @ dz + dA_z
  z = A @ z + bs * x[n]
  \<close>
  \<open>Ux[n]\<close> and \<open>Ux[0]\<close> raise when the array is too short, and \<open>np.zeros((p-1, p))\<close>
  raises for \<open>p = 0\<close>. The state arrays have the shapes that \<open>get_initial_internal_state\<close>
  gives them: \<open>z\<close> of shape (p, 1), \<open>b0\<close> of shape (1, 1).
\<close>

definition phi_vec :: "vec \<Rightarrow> mat \<Rightarrow> mat \<Rightarrow> mat \<Rightarrow> mat \<Rightarrow> real \<Rightarrow> mat" where
  "phi_vec a cT b0 dz z xn =
     mT (mat_sub (matmul cT dz) (mT (smul (scal b0) (rev z))))
     @ [[scal (matmul [neg_vec (rev (drop 1 a))] z) + xn]]
     @ rev z"

definition iir_step ::
  "string \<Rightarrow> vec \<Rightarrow> mat \<Rightarrow> mat \<times> mat \<times> mat \<times> mat \<Rightarrow> real \<Rightarrow> vec \<Rightarrow> nat \<Rightarrow> real \<Rightarrow>
   mat \<times> mat \<times> mat \<Rightarrow> error + (real \<times> real \<times> (mat \<times> mat \<times> mat))" where
  "iir_step kind a Uab sys corr_unc Ux n xn st =
     (case sys of (A, bs, cT, b0) \<Rightarrow>
      case st of (z, dz, P) \<Rightarrow>
        (let p = length a - 1;
             phi = phi_vec a cT b0 dz z xn;
             yn = scal (mat_add (matmul cT z) (smul xn b0));
             quad = matmul (matmul (mT phi) Uab) phi
         in case (if kind = ''diag''
                  then (if n < length Ux
                        then Inr (scal (mat_add (mat_add quad (matmul (matmul cT P) (mT cT)))
                                          (np_square (smul (Ux ! n) b0))),
                                  mat_add (matmul (matmul A P) (mT A))
                                          (smul (Ux ! n * Ux ! n) (np_outer bs bs)))
                        else Inl IndexError)
                  else (if 0 < length Ux
                        then Inr (scal quad + corr_unc,
                                  mat_add (matmul (matmul A P) (mT A))
                                          (smul (Ux ! 0) (np_outer bs bs)))
                        else Inl IndexError)) of
              Inl e \<Rightarrow> Inl e
            | Inr (uyn, P') \<Rightarrow>
                if p < 1 then Inl ValueError
                else (let dA_z = np_zeros (p - 1) p @ mT (smul (- 1) (rev z));
                          dz' = mat_add (matmul A dz) dA_z;
                          z' = mat_add (matmul A z) (smul xn bs)
                      in Inr (yn, uyn, (z', dz', P')))))"

text \<open>
  \<open>for n in range(len(y))\<close>: the samples in order, \<open>n\<close> counting them. The result is the
  list of the outputs \<open>y[n]\<close>, the list of the values \<open>Uy[n]\<close> before the square root,
  and the last state.
\<close>

fun iir_loop ::
  "string \<Rightarrow> vec \<Rightarrow> mat \<Rightarrow> mat \<times> mat \<times> mat \<times> mat \<Rightarrow> real \<Rightarrow> vec \<Rightarrow> nat \<Rightarrow> vec \<Rightarrow>
   mat \<times> mat \<times> mat \<Rightarrow> error + (vec \<times> vec \<times> (mat \<times> mat \<times> mat))" where
  "iir_loop kind a Uab sys corr_unc Ux n [] st = Inr ([], [], st)"
| "iir_loop kind a Uab sys corr_unc Ux n (xn # xs) st =
     (case iir_step kind a Uab sys corr_unc Ux n xn st of
        Inl e \<Rightarrow> Inl e
      | Inr (yn, uyn, st') \<Rightarrow>
          (case iir_loop kind a Uab sys corr_unc Ux (Suc n) xs st' of
             Inl e \<Rightarrow> Inl e
           | Inr (ys, uys, st'') \<Rightarrow> Inr (yn # ys, uyn # uys, st'')))"

text \<open>
  The arguments: \<open>Ux\<close> is a float or an array, \<open>Uab\<close> is \<open>None\<close> or an array,
  \<open>init_internal_state\<close> is the empty dictionary (\<open>None\<close>) or a dictionary with the five
  keys. The result holds the state when \<open>return_state\<close> is set.
\<close>

datatype ux_arg = UxFloat real | UxArray vec

definition ux_vector :: "ux_arg \<Rightarrow> vec \<Rightarrow> vec" where
  \<comment> \<open>\<open>if not isinstance(Ux, np.ndarray): Ux = Ux * np.ones_like(x)\<close>\<close>
  "ux_vector Ux x = (case Ux of UxFloat u \<Rightarrow> map (\<lambda>_. u) x | UxArray v \<Rightarrow> v)"

definition default_Uab :: "mat option \<Rightarrow> int \<Rightarrow> error + mat" where
  \<comment> \<open>\<open>if not isinstance(Uab, np.ndarray): Uab = np.zeros((2*p+1, 2*p+1))\<close>\<close>
  "default_Uab Uab p =
     (case Uab of
        Some U \<Rightarrow> Inr U
      | None \<Rightarrow> if 2 * p + 1 < 0 then Inl ValueError
                else Inr (np_zeros (nat (2 * p + 1)) (nat (2 * p + 1))))"

definition pad_b :: "vec \<Rightarrow> vec \<Rightarrow> error + vec" where
  \<comment> \<open>\<open>if not len(b) == len(a): b = np.hstack((b, np.zeros((len(a) - len(b),))))\<close>\<close>
  "pad_b b a =
     (if length b = length a then Inr b
      else if length a < length b then Inl ValueError
      else Inr (b @ replicate (length a - length b) 0))"

definition start_state ::
  "externals \<Rightarrow> internal_state option \<Rightarrow> string \<Rightarrow> vec \<Rightarrow> vec \<Rightarrow> vec \<Rightarrow> error + internal_state" where
  \<comment> \<open>\<open>if init_internal_state: ... else: ...\<close>\<close>
  "start_state ext init_internal_state kind b a Ux =
     (case init_internal_state of
        Some st \<Rightarrow> Inr st
      | None \<Rightarrow>
          if kind = ''diag'' then get_initial_internal_state ext b a 0 0 None
          else get_initial_internal_state ext b a 0 0 (Some Ux))"

definition IIRuncFilter ::
  "externals \<Rightarrow> vec \<Rightarrow> ux_arg \<Rightarrow> vec \<Rightarrow> vec \<Rightarrow> mat option \<Rightarrow> internal_state option \<Rightarrow> bool \<Rightarrow>
   string \<Rightarrow> error + (vec \<times> vec \<times> internal_state option)" where
  "IIRuncFilter ext x Ux b a Uab init_internal_state return_state kind =
     (let p = int (length a) - 1;
          Ux' = ux_vector Ux x
      in case default_Uab Uab p of
           Inl e \<Rightarrow> Inl e
         | Inr Uab' \<Rightarrow>
             (case pad_b b a of
                Inl e \<Rightarrow> Inl e
              | Inr b' \<Rightarrow>
                  (case start_state ext init_internal_state kind b' a Ux' of
                     Inl e \<Rightarrow> Inl e
                   | Inr st \<Rightarrow>
                       if 2 * p + 1 < 0 then Inl ValueError
                       else (case iir_loop kind a Uab' (st_system st) (st_corr_unc st) Ux' 0 x
                                     (st_z st, st_dz st, st_P st) of
                               Inl e \<Rightarrow> Inl e
                             | Inr (y, Uy, (z, dz, P)) \<Rightarrow>
                                 Inr (y, map (\<lambda>u. sqrt \<bar>u\<bar>) Uy,
                                      if return_state
                                      then Some \<lparr>st_z = z, st_dz = dz, st_P = P,
                                                 st_system = st_system st,
                                                 st_corr_unc = st_corr_unc st\<rparr>
                                      else None)))))"

text \<open>
  The recursion in the words of the specification, entry by entry, for the uncorrelated
  noise model and a filter of order \<open>p\<close>: the sensitivity vector \<open>\<phi>\<close>, the output
  \<open>y[n] = C\<^sup>T z + b0 x[n]\<close>, the output uncertainty before the square root
  \<open>\<phi>\<^sup>T Uab \<phi> + C\<^sup>T P C + (b0 Ux[n])\<^sup>2\<close>, and the updates \<open>P \<leftarrow> A P A\<^sup>T + Ux[n]\<^sup>2 B B\<^sup>T\<close>,
  \<open>dz \<leftarrow> A dz + dA_row\<close> (the last row of \<open>dA_row\<close> is \<open>-reverse(z)\<close>, its other rows are zero)
  and \<open>z \<leftarrow> A z + B x[n]\<close>, in this order, all three from the state before the step.
\<close>

definition spec_phi :: "nat \<Rightarrow> vec \<Rightarrow> mat \<Rightarrow> real \<Rightarrow> mat \<Rightarrow> mat \<Rightarrow> real \<Rightarrow> nat \<Rightarrow> real" where
  "spec_phi p a cT b0 dz z xn i =
     (if i < p then (\<Sum>k<p. cT ! 0 ! k * dz ! k ! i) - b0 * z ! (p - 1 - i) ! 0
      else if i = p then (\<Sum>k<p. - (a ! (p - k)) * z ! k ! 0) + xn
      else z ! (2 * p - i) ! 0)"

definition spec_y :: "nat \<Rightarrow> mat \<Rightarrow> real \<Rightarrow> mat \<Rightarrow> real \<Rightarrow> real" where
  "spec_y p cT b0 z xn = (\<Sum>k<p. cT ! 0 ! k * z ! k ! 0) + b0 * xn"

definition spec_Uy :: "nat \<Rightarrow> (nat \<Rightarrow> real) \<Rightarrow> mat \<Rightarrow> mat \<Rightarrow> mat \<Rightarrow> real \<Rightarrow> real \<Rightarrow> real" where
  "spec_Uy p phi Uab cT P b0 ux =
     (\<Sum>i<2 * p + 1. \<Sum>j<2 * p + 1. phi i * Uab ! i ! j * phi j)
     + (\<Sum>i<p. \<Sum>j<p. cT ! 0 ! i * P ! i ! j * cT ! 0 ! j)
     + (b0 * ux) * (b0 * ux)"

definition spec_P :: "nat \<Rightarrow> mat \<Rightarrow> mat \<Rightarrow> mat \<Rightarrow> real \<Rightarrow> mat" where
  "spec_P p A P bs ux =
     mk_mat p p (\<lambda>i j. (\<Sum>k<p. \<Sum>l<p. A ! i ! k * P ! k ! l * A ! j ! l)
                        + ux * ux * (bs ! i ! 0 * bs ! j ! 0))"

definition spec_dz :: "nat \<Rightarrow> mat \<Rightarrow> mat \<Rightarrow> mat \<Rightarrow> mat" where
  "spec_dz p A dz z =
     mk_mat p p (\<lambda>i j. (\<Sum>k<p. A ! i ! k * dz ! k ! j)
                        + (if Suc i = p then - (z ! (p - 1 - j) ! 0) else 0))"

definition spec_z :: "nat \<Rightarrow> mat \<Rightarrow> mat \<Rightarrow> mat \<Rightarrow> real \<Rightarrow> mat" where
  "spec_z p A z bs xn = mk_mat p 1 (\<lambda>i _. (\<Sum>k<p. A ! i ! k * z ! k ! 0) + bs ! i ! 0 * xn)"

fun spec_run ::
  "nat \<Rightarrow> vec \<Rightarrow> mat \<Rightarrow> mat \<Rightarrow> mat \<Rightarrow> mat \<Rightarrow> real \<Rightarrow> vec \<Rightarrow> nat \<Rightarrow> vec \<Rightarrow> mat \<times> mat \<times> mat \<Rightarrow>
   vec \<times> vec \<times> (mat \<times> mat \<times> mat)" where
  "spec_run p a Uab A bs cT b0 Ux n [] st = ([], [], st)"
| "spec_run p a Uab A bs cT b0 Ux n (xn # xs) st =
     (case st of (z, dz, P) \<Rightarrow>
        (let y = spec_y p cT b0 z xn;
             uy = spec_Uy p (spec_phi p a cT b0 dz z xn) Uab cT P b0 (Ux ! n);
             P' = spec_P p A P bs (Ux ! n);
             dz' = spec_dz p A dz z;
             z' = spec_z p A z bs xn
         in case spec_run p a Uab A bs cT b0 Ux (Suc n) xs (z', dz', P') of
              (ys, uys, st') \<Rightarrow> (y # ys, uy # uys, st')))"

text \<open>
  Processing a signal in two chunks, as the claim on checkpoints describes it: the first
  call starts afresh and exports its state, the second call starts from that state, and
  the outputs are concatenated.
\<close>

definition IIRuncFilter_chunked ::
  "externals \<Rightarrow> vec \<Rightarrow> ux_arg \<Rightarrow> vec \<Rightarrow> ux_arg \<Rightarrow> vec \<Rightarrow> vec \<Rightarrow> mat option \<Rightarrow> string \<Rightarrow>
   error + (vec \<times> vec \<times> internal_state option)" where
  "IIRuncFilter_chunked ext x1 Ux1 x2 Ux2 b a Uab kind =
     (case IIRuncFilter ext x1 Ux1 b a Uab None True kind of
        Inl e \<Rightarrow> Inl e
      | Inr (y1, Uy1, checkpoint) \<Rightarrow>
          (case IIRuncFilter ext x2 Ux2 b a Uab checkpoint False kind of
             Inl e \<Rightarrow> Inl e
           | Inr (y2, Uy2, _) \<Rightarrow> Inr (y1 @ y2, Uy1 @ Uy2, None)))"

section \<open>The noise-model tag of \<open>FIRuncFilter\<close>\<close>

text \<open>
  \<^verbatim>\<open>
  if isinstance(sigma_noise, float):
      sigma2 = sigma_noise**2
  elif isinstance(sigma_noise, np.ndarray):
      if kind == "diag":
          sigma2 = sigma_noise ** 2
      elif kind == "corr":
          sigma2 = sigma_noise
      else:
          raise ValueError("unknown kind of sigma_noise")
  else:
      raise ValueError("sigma_noise is neither of type float nor numpy.ndarray.")
  \<close>
  These are the first statements of \<open>FIRuncFilter\<close> that can raise. What follows them
  (the low-pass filter, the covariance of the noise, the filter itself) is the parameter
  \<open>rest\<close> of the embedding.
\<close>

datatype sigma_arg = SigmaFloat real | SigmaArray vec | SigmaOther

datatype sigma2_val = Sigma2Float real | Sigma2Array vec

definition FIR_sigma2 :: "sigma_arg \<Rightarrow> string \<Rightarrow> error + sigma2_val" where
  "FIR_sigma2 sigma_noise kind =
     (case sigma_noise of
        SigmaFloat s \<Rightarrow> Inr (Sigma2Float (s * s))
      | SigmaArray v \<Rightarrow>
          if kind = ''diag'' then Inr (Sigma2Array (map (\<lambda>s. s * s) v))
          else if kind = ''corr'' then Inr (Sigma2Array v)
          else Inl ValueError
      | SigmaOther \<Rightarrow> Inl ValueError)"

definition FIRuncFilter ::
  "(vec \<Rightarrow> sigma2_val \<Rightarrow> vec \<Rightarrow> mat \<Rightarrow> int \<Rightarrow> vec option \<Rightarrow> string \<Rightarrow> error + (vec \<times> vec)) \<Rightarrow>
   vec \<Rightarrow> sigma_arg \<Rightarrow> vec \<Rightarrow> mat option \<Rightarrow> int \<Rightarrow> vec option \<Rightarrow> string \<Rightarrow> error + (vec \<times> vec)" where
  "FIRuncFilter rest y sigma_noise theta Utheta shift blow kind =
     (let Ntheta = length theta;
          Utheta' = (case Utheta of Some U \<Rightarrow> U | None \<Rightarrow> np_zeros Ntheta Ntheta)
      in case FIR_sigma2 sigma_noise kind of
           Inl e \<Rightarrow> Inl e
         | Inr sigma2 \<Rightarrow> rest y sigma2 theta Utheta' shift blow kind)"

section \<open>The least-squares fit \<open>LSIIR\<close>\<close>

text \<open>
  The argument \<open>inv\<close> of the source is written \<open>invert\<close>. The numerical routines that
  \<open>LSIIR\<close> calls are parameters of the embedding:
  \<open>lstsq M v\<close> is \<open>np.linalg.lstsq(M, v, rcond=None)[0]\<close>, \<open>np_roots\<close> is \<open>np.roots\<close>, and
  \<open>mapinside\<close> and \<open>grpdelay\<close> (the delays \<open>grpdelay(b, a, Fs)[0]\<close>) are the helpers of
  \<open>PyDynamic.misc.filterstuff\<close>.
\<close>

record fit_externals =
  lstsq :: "mat \<Rightarrow> vec \<Rightarrow> vec"
  np_roots :: "vec \<Rightarrow> complex list"
  mapinside :: "vec \<Rightarrow> vec"
  grpdelay :: "vec \<Rightarrow> vec \<Rightarrow> real \<Rightarrow> vec"

text \<open>
  \<^verbatim>\<open>
  exponent = -1 if inv else 1
  Ea = E[:, 1:Na + 1]
  Eb = E[:, :Nb + 1]
  Htau = np.exp(-1j * w * tau) * Hvals ** exponent
  HEa = np.dot(np.diag(Htau), Ea)
  D = np.hstack((HEa, -Eb))
  Tmp1 = np.real(np.dot(np.conj(D.T), D))
  Tmp2 = np.real(np.dot(np.conj(D.T), -Htau))
  ab = np.linalg.lstsq(Tmp1, Tmp2, rcond=None)[0]
  a = np.hstack((1.0, ab[:Na]))
  b = ab[Na:]
  return b, a
  \<close>
\<close>

definition fit_Htau :: "complex list \<Rightarrow> int \<Rightarrow> vec \<Rightarrow> bool \<Rightarrow> complex list" where
  \<comment> \<open>\<open>Htau = np.exp(-1j * w * tau) * Hvals ** exponent\<close>\<close>
  "fit_Htau Hvals tau w invert =
     map2 (\<lambda>wk h. exp (- \<i> * complex_of_real wk * of_int tau) * (if invert then 1 / h else h))
          w Hvals"

definition fit_D :: "complex list \<Rightarrow> complex list list \<Rightarrow> nat \<Rightarrow> nat \<Rightarrow> complex list list" where
  \<comment> \<open>\<open>D = np.hstack((np.dot(np.diag(Htau), E[:, 1:Na + 1]), -E[:, :Nb + 1]))\<close>\<close>
  "fit_D Htau E Na Nb =
     (let Ea = map (\<lambda>row. take Na (drop 1 row)) E;
          Eb = map (take (Nb + 1)) E;
          HEa = map2 (\<lambda>h row. map ((*) h) row) Htau Ea
      in map2 (\<lambda>r1 r2. r1 @ map uminus r2) HEa Eb)"

definition fit_Tmp1 :: "complex list list \<Rightarrow> mat" where
  \<comment> \<open>\<open>Tmp1 = np.real(np.dot(np.conj(D.T), D))\<close>\<close>
  "fit_Tmp1 D =
     (let n = (case D of [] \<Rightarrow> 0 | r # _ \<Rightarrow> length r)
      in map (\<lambda>i. map (\<lambda>j. Re (sum_list (map (\<lambda>m. cnj (D ! m ! i) * D ! m ! j) [0..<length D])))
                      [0..<n])
             [0..<n])"

definition fit_Tmp2 :: "complex list list \<Rightarrow> complex list \<Rightarrow> vec" where
  \<comment> \<open>\<open>Tmp2 = np.real(np.dot(np.conj(D.T), -Htau))\<close>\<close>
  "fit_Tmp2 D Htau =
     (let n = (case D of [] \<Rightarrow> 0 | r # _ \<Rightarrow> length r)
      in map (\<lambda>i. Re (sum_list (map (\<lambda>m. cnj (D ! m ! i) * (- (Htau ! m))) [0..<length D])))
             [0..<n])"

definition fitIIR ::
  "fit_externals \<Rightarrow> complex list \<Rightarrow> int \<Rightarrow> vec \<Rightarrow> complex list list \<Rightarrow> nat \<Rightarrow> nat \<Rightarrow> bool \<Rightarrow>
   vec \<times> vec" where
  "fitIIR ext Hvals tau w E Na Nb invert =
     (let Htau = fit_Htau Hvals tau w invert;
          D = fit_D Htau E Na Nb;
          ab = lstsq ext (fit_Tmp1 D) (fit_Tmp2 D Htau);
          a = 1 # take Na ab;
          b = drop Na ab
      in (b, a))"

text \<open>
  \<^verbatim>\<open>
  def check_stability(denominator_coeff):
      return np.count_nonzero(np.abs(np.roots(denominator_coeff)) > 1) > 0
  \<close>
\<close>

definition check_stability :: "fit_externals \<Rightarrow> vec \<Rightarrow> bool" where
  "check_stability ext denominator_coeff =
     (0 < length (filter (\<lambda>r. 1 < cmod r) (np_roots ext denominator_coeff)))"

definition np_median :: "vec \<Rightarrow> real" where
  \<comment> \<open>\<open>np.median\<close> of a non-empty array.\<close>
  "np_median v =
     (let s = sort v; n = length v
      in if odd n then s ! (n div 2) else (s ! (n div 2 - 1) + s ! (n div 2)) / 2)"

text \<open>
  The argument \<open>UHvals\<close> is \<open>None\<close>, a nested list or an array. \<open>if UHvals:\<close> is false for
  \<open>None\<close>, for an empty list and for an empty array; it raises for an array with more than
  one entry. \<open>np.random.multivariate_normal\<close> raises unless the covariance is square, of
  the size of the mean. Its draws are never read afterwards.
\<close>

datatype uhvals = UH_None | UH_List "real list list" | UH_Array "real list list"

definition truth_value :: "uhvals \<Rightarrow> error + bool" where
  "truth_value UHvals =
     (case UHvals of
        UH_None \<Rightarrow> Inr False
      | UH_List rows \<Rightarrow> Inr (0 < length rows)
      | UH_Array rows \<Rightarrow>
          if 1 < length (concat rows) then Inl ValueError
          else Inr (length (concat rows) = 1 \<and> 0 < \<bar>concat rows ! 0\<bar>))"

definition cov_rows :: "uhvals \<Rightarrow> real list list" where
  "cov_rows UHvals = (case UHvals of UH_None \<Rightarrow> [] | UH_List rows \<Rightarrow> rows | UH_Array rows \<Rightarrow> rows)"

text \<open>
  \<^verbatim>\<open>
  current_stab_iter = 1
  while unstable and current_stab_iter < max_stab_iter:
      astab = mapinside(a)
      g1 = grpdelay(b, a, Fs)[0]
      g2 = grpdelay(b, astab, Fs)[0]
      tau = np.ceil(tau + np.median(g2 - g1))
      b, a = _fitIIR(Hvals, tau, w, E, Na, Nb, inv=inv)
      if check_stability(a):
          unstable = False
      current_stab_iter += 1
  \<close>
\<close>

function stab_loop ::
  "fit_externals \<Rightarrow> complex list \<Rightarrow> vec \<Rightarrow> complex list list \<Rightarrow> nat \<Rightarrow> nat \<Rightarrow> bool \<Rightarrow> real \<Rightarrow>
   int \<Rightarrow> vec \<Rightarrow> vec \<Rightarrow> int \<Rightarrow> bool \<Rightarrow> int \<Rightarrow> vec \<times> vec \<times> int \<times> bool \<times> int" where
  "stab_loop ext Hvals w E Na Nb invert Fs max_stab_iter b a tau unstable current_stab_iter =
     (if unstable \<and> current_stab_iter < max_stab_iter
      then (let astab = mapinside ext a;
                g1 = grpdelay ext b a Fs;
                g2 = grpdelay ext b astab Fs;
                tau' = \<lceil>of_int tau + np_median (map2 (-) g2 g1)\<rceil>;
                ba = fitIIR ext Hvals tau' w E Na Nb invert;
                unstable' = (if check_stability ext (snd ba) then False else unstable)
            in stab_loop ext Hvals w E Na Nb invert Fs max_stab_iter (fst ba) (snd ba) tau'
                 unstable' (current_stab_iter + 1))
      else (b, a, tau, unstable, current_stab_iter))"
  by pat_completeness auto
termination
  by (relation "measure (\<lambda>(ext, Hvals, w, E, Na, Nb, invert, Fs, max_stab_iter, b, a, tau,
        unstable, current_stab_iter). nat (max_stab_iter - current_stab_iter))") auto

declare stab_loop.simps [simp del]

text \<open>
  The body of \<open>LSIIR\<close>. The fit and everything after it up to the dashed line stand under
  \<open>if UHvals:\<close>; when that is false, \<open>b\<close>, \<open>a\<close> and \<open>unstable\<close> are never assigned and the
  first statement that reads one of them raises \<open>UnboundLocalError\<close> (\<open>if unstable:\<close> with
  \<open>verbose\<close>, \<open>return b, a, int(tau)\<close> without). The printed messages are left out.
  \<^verbatim>\<open>
  if UHvals:
      w = 2 * np.pi * f / Fs
      Ns = np.arange(0, max(Nb, Na) + 1)[:, np.newaxis]
      E = np.exp(-1j * np.dot(w[:, np.newaxis], Ns.T))
      b, a = _fitIIR(Hvals, tau, w, E, Na, Nb, inv=inv)
      unstable = not check_stability(a)
      if justFit:
          ...
          return b, a, 0
      current_stab_iter = 1
      while unstable and current_stab_iter < max_stab_iter:
          ...
  ...
  return b, a, int(tau)
  \<close>
\<close>

definition omega :: "vec \<Rightarrow> real \<Rightarrow> vec" where
  \<comment> \<open>\<open>w = 2 * np.pi * f / Fs\<close>\<close>
  "omega f Fs = map (\<lambda>fk. 2 * pi * fk / Fs) f"

definition design_matrix :: "vec \<Rightarrow> nat \<Rightarrow> nat \<Rightarrow> complex list list" where
  \<comment> \<open>\<open>Ns = np.arange(0, max(Nb, Na) + 1)\<close>, \<open>E = np.exp(-1j * np.dot(w[:, np.newaxis], Ns.T))\<close>\<close>
  "design_matrix w Nb Na =
     map (\<lambda>wk. map (\<lambda>n. exp (- \<i> * complex_of_real (wk * real n))) [0..<max Nb Na + 1]) w"

definition LSIIR ::
  "fit_externals \<Rightarrow> complex list \<Rightarrow> nat \<Rightarrow> nat \<Rightarrow> vec \<Rightarrow> real \<Rightarrow> int \<Rightarrow> bool \<Rightarrow> bool \<Rightarrow> int \<Rightarrow> bool \<Rightarrow>
   uhvals \<Rightarrow> nat \<Rightarrow> error + (vec \<times> vec \<times> int)" where
  "LSIIR ext Hvals Nb Na f Fs tau justFit verbose max_stab_iter invert UHvals mc_runs =
     (case truth_value UHvals of
        Inl e \<Rightarrow> Inl e
      | Inr t \<Rightarrow>
          if t then
            (if is_mat (2 * length Hvals) (2 * length Hvals) (cov_rows UHvals)
             then (let w = omega f Fs;
                       E = design_matrix w Nb Na;
                       ba = fitIIR ext Hvals tau w E Na Nb invert;
                       unstable = (\<not> check_stability ext (snd ba))
                   in if justFit then Inr (fst ba, snd ba, 0)
                      else (case stab_loop ext Hvals w E Na Nb invert Fs max_stab_iter
                                   (fst ba) (snd ba) tau unstable 1 of
                              (b, a, tau', unstable', current_stab_iter) \<Rightarrow> Inr (b, a, tau')))
             else Inl ValueError)
          else Inl UnboundLocalError)"

section \<open>The external routines on small inputs\<close>

text \<open>
  The sample evaluations below need the external routines at concrete arguments. These
  instances are exact on the sizes they are used at: least squares for a non-singular
  system of one or two unknowns, the roots of a polynomial of degree at most one, and
  \<open>mapinside\<close> of such a polynomial (a root outside the unit circle is replaced by the
  reciprocal of its conjugate); no evaluation below reaches \<open>grpdelay\<close>. For the
  propagator: the two linear solves for a filter of order one, and the impulse response
  of a filter by its difference equation, for a numerator and a denominator of the same
  length (\<open>IIRuncFilter\<close> pads the numerator before it asks for the response) and at least
  two time points. \<open>dimpulse\<close> raises on an empty time vector, and on a single time
  point its interpolation of the input divides zero by zero, so that the response is
  nan.
\<close>

definition solve_1x1 :: "mat \<Rightarrow> mat \<Rightarrow> error + mat" where
  \<comment> \<open>\<open>scipy.linalg.solve\<close> for one unknown: a zero matrix is singular.\<close>
  "solve_1x1 M R =
     (if M ! 0 ! 0 = 0 then Inl LinAlgError else Inr [map (\<lambda>r. r / M ! 0 ! 0) (R ! 0)])"

definition lyapunov_1x1 :: "mat \<Rightarrow> mat \<Rightarrow> error + mat" where
  \<comment> \<open>The solution of \<open>P = A P A\<^sup>T + Q\<close> for one unknown.\<close>
  "lyapunov_1x1 A Q =
     (if A ! 0 ! 0 * A ! 0 ! 0 = 1 then Inl LinAlgError
      else Inr [[Q ! 0 ! 0 / (1 - A ! 0 ! 0 * A ! 0 ! 0)]])"

fun impulse_response :: "vec \<Rightarrow> vec \<Rightarrow> nat \<Rightarrow> vec" where
  "impulse_response b a 0 = []"
| "impulse_response b a (Suc n) =
     (let h = impulse_response b a n
      in h @ [((if n < length b then b ! n else 0)
               - sum_list (map (\<lambda>k. a ! k * h ! (n - k)) [1..<min (Suc n) (length a)])) / a ! 0])"

definition dimpulse_exact :: "vec \<Rightarrow> vec \<Rightarrow> nat \<Rightarrow> error + vec" where
  \<comment> \<open>The first \<open>n\<close> samples of the impulse response, for \<open>n \<ge> 2\<close>; \<open>dimpulse\<close> indexes
      \<open>u[0]\<close> and so raises for \<open>n = 0\<close>, and returns nan for \<open>n = 1\<close>.\<close>
  "dimpulse_exact b a n =
     (if n = 0 then Inl IndexError
      else if n = 1 then Inl NotANumber
      else Inr (impulse_response b a n))"

definition ext_first_order :: externals where
  "ext_first_order = \<lparr>solve = solve_1x1, solve_discrete_lyapunov = lyapunov_1x1,
                       dimpulse = dimpulse_exact\<rparr>"

definition lstsq_small :: "mat \<Rightarrow> vec \<Rightarrow> vec" where
  "lstsq_small M v =
     (if length v = 1 then [v ! 0 / M ! 0 ! 0]
      else (let d = M ! 0 ! 0 * M ! 1 ! 1 - M ! 0 ! 1 * M ! 1 ! 0
            in [(v ! 0 * M ! 1 ! 1 - M ! 0 ! 1 * v ! 1) / d,
                (M ! 0 ! 0 * v ! 1 - M ! 1 ! 0 * v ! 0) / d]))"

definition roots_small :: "vec \<Rightarrow> complex list" where
  "roots_small c = (if length c = 2 then [complex_of_real (- (c ! 1) / c ! 0)] else [])"

definition mapinside_small :: "vec \<Rightarrow> vec" where
  "mapinside_small c =
     (if length c = 2
      then (let v = - (c ! 1) / c ! 0 in [1, - (if 1 < \<bar>v\<bar> then 1 / v else v)])
      else [1])"

definition env_small :: fit_externals where
  "env_small = \<lparr>lstsq = lstsq_small, np_roots = roots_small, mapinside = mapinside_small,
                 grpdelay = (\<lambda>b a Fs. [])\<rparr>"

section \<open>Properties of the state-space converter\<close>

lemma np_sub_same: "length u = length v \<Longrightarrow> np_sub u v = Inr (map2 (-) u v)"
  by (simp add: np_sub_def)

lemma np_eye_nat: "np_eye (int n) (int m) k = Inr (eye_mat n m k)"
  by (simp add: np_eye_def)

lemma neg_rev_tail:
  "neg_vec (rev (drop 1 a)) = map (\<lambda>j. - (a ! (length a - 1 - j))) [0..<length a - 1]"
proof (rule nth_equalityI)
  show "length (neg_vec (rev (drop 1 a)))
      = length (map (\<lambda>j. - (a ! (length a - 1 - j))) [0..<length a - 1])"
    by (simp add: neg_vec_def)
next
  fix i assume "i < length (neg_vec (rev (drop 1 a)))"
  then have i: "i < length a - 1" by (simp add: neg_vec_def)
  then have "Suc (length a - 1 - Suc i) = length a - 1 - i" by arith
  then show "neg_vec (rev (drop 1 a)) ! i
      = map (\<lambda>j. - (a ! (length a - 1 - j))) [0..<length a - 1] ! i"
    using i by (simp add: neg_vec_def rev_nth)
qed

lemma tf2ss_A:
  assumes "2 \<le> length a"
  shows "eye_mat (length a - 2) (length a - 1) 1 @ [neg_vec (rev (drop 1 a))] = companion a"
    (is "?L = _")
proof (rule nth_equalityI)
  show "length ?L = length (companion a)"
    using assms by (simp add: companion_def Let_def eye_mat_def)
next
  fix i
  assume "i < length ?L"
  then have i: "i < length a - 1" using assms by (simp add: eye_mat_def)
  show "?L ! i = companion a ! i"
  proof (cases "Suc i < length a - 1")
    case True
    then show ?thesis using i
      by (auto simp: companion_def Let_def nth_append eye_mat_def)
  next
    case False
    then have e: "i = length a - 2" using i by arith
    have "?L ! i = neg_vec (rev (drop 1 a))"
      using e by (simp add: nth_append eye_mat_def)
    also have "\<dots> = map (\<lambda>j. - (a ! (length a - 1 - j))) [0..<length a - 1]"
      by (rule neg_rev_tail)
    also have "\<dots> = companion a ! i"
      using i False by (simp add: companion_def Let_def)
    finally show ?thesis .
  qed
qed

lemma tf2ss_B: "0 < p \<Longrightarrow> (np_zeros p 1)[p - 1 := [1]] = unit_last p"
  by (rule nth_equalityI) (auto simp: np_zeros_def unit_last_def nth_list_update)

lemma tf2ss_C:
  assumes "length b = length a"
  shows "[rev (map2 (-) (drop 1 b) (smul_vec (b ! 0) (drop 1 a)))] = output_row b a"
proof -
  have "rev (map2 (-) (drop 1 b) (smul_vec (b ! 0) (drop 1 a)))
      = map (\<lambda>j. b ! (length a - 1 - j) - b ! 0 * a ! (length a - 1 - j)) [0..<length a - 1]"
    (is "?L = ?R")
  proof (rule nth_equalityI)
    show "length ?L = length ?R" using assms by (simp add: smul_vec_def)
  next
    fix i assume "i < length ?L"
    then have i: "i < length a - 1" using assms by (simp add: smul_vec_def)
    then have "Suc (length a - 1 - Suc i) = length a - 1 - i" by arith
    then show "?L ! i = ?R ! i"
      using i assms by (simp add: smul_vec_def rev_nth)
  qed
  then show ?thesis by (simp add: output_row_def Let_def)
qed

lemma tf2ss_eq:
  assumes "length b = length a" and "2 \<le> length a"
  shows "tf2ss b a = Inr (companion a, unit_last (length a - 1), output_row b a, [[b ! 0]])"
proof -
  from assms have "b \<noteq> []" by auto
  then obtain b0 bs where b: "b = b0 # bs" by (cases b) auto
  have p1: "int (length a - 1) - 1 = int (length a - 2)"
    and p0: "int (length a) - 1 = int (length a - 1)"
    using assms(2) by auto
  have eye: "np_eye (int (length a) - 1 - 1) (int (length a) - 1) 1
           = Inr (eye_mat (length a - 2) (length a - 1) 1)"
    by (simp only: p1 p0 np_eye_nat)
  have sub: "np_sub (drop 1 b) (smul_vec b0 (drop 1 a))
           = Inr (map2 (-) (drop 1 b) (smul_vec b0 (drop 1 a)))"
    using assms(1) by (simp add: np_sub_same smul_vec_def)
  have n: "nat (int (length a) - 1) = length a - 1" by simp
  have B: "(np_zeros (length a - 1) 1)[length a - 1 - 1 := [1]] = unit_last (length a - 1)"
    using assms(2) by (intro tf2ss_B) simp
  have C: "[rev (map2 (-) (drop 1 b) (smul_vec b0 (drop 1 a)))] = output_row b a"
    using tf2ss_C[OF assms(1)] by (simp add: b)
  show ?thesis
    unfolding tf2ss_def Let_def eye n
    using tf2ss_A[OF assms(2)] B C sub
    by (simp add: b)
qed

text \<open>
  C9, as stated, fails for a filter of order zero: \<open>_tf2ss\<close> of \<open>b = [2.0]\<close>, \<open>a = [1.0]\<close>
  has \<open>p = 0\<close>, and \<open>np.eye(-1, 0, k=1)\<close> raises \<open>ValueError\<close> (negative dimensions).
\<close>

theorem tf2ss_order_zero_raises: "tf2ss [2] [1] = Inl ValueError"
  by (simp add: tf2ss_def np_eye_def)

text \<open>
  C9, amended: for every pair of coefficient vectors \<open>(b, a)\<close> with \<open>len(b) == len(a)\<close> and
  at least two entries, \<open>_tf2ss\<close> returns the realization in which \<open>A\<close> is the
  companion-type matrix whose last row is \<open>-reverse(a[1:])\<close>, \<open>B\<close> is zero except for a one
  in its last entry, \<open>C\<close> is \<open>(b[1:] - b[0] a[1:])\<close> reversed and \<open>D\<close> is \<open>b[0]\<close>. The
  normalisation \<open>a[0] == 1\<close> is not needed for this.
\<close>

theorem tf2ss_realization:
  assumes "length b = length a" and "2 \<le> length a"
  shows "tf2ss b a = Inr (companion a, unit_last (length a - 1), output_row b a, [[b ! 0]])"
  using assms by (rule tf2ss_eq)

theorem tf2ss_realization_witness:
  "tf2ss [1, 2, 3] [1, 1/2, 1/4]
     = Inr ([[0, 1], [- (1/4), - (1/2)]], [[0], [1]], [[3 - 1/4, 2 - 1/2]], [[1]])"
  using tf2ss_realization[of "[1, 2, 3]" "[1, 1/2, 1/4]"]
  by (simp add: companion_def unit_last_def output_row_def upt_rec)

section \<open>Matrices entry by entry\<close>

lemma is_mat_iff: "is_mat r c M \<longleftrightarrow> length M = r \<and> (\<forall>i<r. length (M ! i) = c)"
  by (auto simp: is_mat_def list_all_length)

lemma is_mat_length: "is_mat r c M \<Longrightarrow> length M = r"
  by (simp add: is_mat_iff)

lemma is_mat_row: "is_mat r c M \<Longrightarrow> i < r \<Longrightarrow> length (M ! i) = c"
  by (simp add: is_mat_iff)

lemma is_mat_ncols: "is_mat r c M \<Longrightarrow> 0 < r \<Longrightarrow> ncols M = c"
  by (cases M) (auto simp: is_mat_def ncols_def)

lemma is_mat_mk_mat: "is_mat n m (mk_mat n m f)"
  by (simp add: is_mat_iff mk_mat_def)

lemma mk_mat_nth: "i < n \<Longrightarrow> j < m \<Longrightarrow> mk_mat n m f ! i ! j = f i j"
  by (simp add: mk_mat_def)

lemma mk_mat_cong: "(\<And>i j. i < n \<Longrightarrow> j < m \<Longrightarrow> f i j = g i j) \<Longrightarrow> mk_mat n m f = mk_mat n m g"
  by (simp add: mk_mat_def)

lemma mat_eq_mk_mat: "is_mat n m M \<Longrightarrow> M = mk_mat n m (\<lambda>i j. M ! i ! j)"
  unfolding mk_mat_def
  by (intro nth_equalityI) (auto simp: is_mat_iff)

lemma sum_list_upt: "sum_list (map f [0..<n]) = (\<Sum>k<n. f k)"
  by (simp add: interv_sum_list_conv_sum_set_nat atLeast0LessThan)

lemma matmul_mk:
  assumes "is_mat n k A" and "is_mat k m B" and "0 < k"
  shows "matmul A B = mk_mat n m (\<lambda>i j. \<Sum>l<k. A ! i ! l * B ! l ! j)"
proof (cases "n = 0")
  case True
  then show ?thesis using assms by (simp add: matmul_def mk_mat_def nrows_def is_mat_iff)
next
  case False
  then have "ncols A = k" using assms(1) by (simp add: is_mat_ncols)
  moreover have "ncols B = m" using assms(2,3) by (simp add: is_mat_ncols)
  moreover have "nrows A = n" using assms(1) by (simp add: nrows_def is_mat_iff)
  ultimately show ?thesis by (simp add: matmul_def mk_mat_def sum_list_upt)
qed

lemma mT_mk:
  assumes "is_mat n m M" and "0 < n"
  shows "mT M = mk_mat m n (\<lambda>j i. M ! i ! j)"
proof -
  have "ncols M = m" using assms by (simp add: is_mat_ncols)
  moreover have "length M = n" using assms by (simp add: is_mat_iff)
  ultimately show ?thesis
    unfolding mT_def mk_mat_def
    by (auto intro!: nth_equalityI)
qed

lemma mat_add_mk:
  assumes "is_mat n m A" and "is_mat n m B"
  shows "mat_add A B = mk_mat n m (\<lambda>i j. A ! i ! j + B ! i ! j)"
  using assms unfolding mat_add_def mk_mat_def
  by (auto intro!: nth_equalityI simp: is_mat_iff)

lemma mat_sub_mk:
  assumes "is_mat n m A" and "is_mat n m B"
  shows "mat_sub A B = mk_mat n m (\<lambda>i j. A ! i ! j - B ! i ! j)"
  using assms unfolding mat_sub_def mk_mat_def
  by (auto intro!: nth_equalityI simp: is_mat_iff)

lemma smul_mk:
  assumes "is_mat n m A"
  shows "smul c A = mk_mat n m (\<lambda>i j. c * A ! i ! j)"
  using assms unfolding smul_def mk_mat_def
  by (auto intro!: nth_equalityI simp: is_mat_iff)

lemma np_square_mk:
  assumes "is_mat n m A"
  shows "np_square A = mk_mat n m (\<lambda>i j. A ! i ! j * A ! i ! j)"
  using assms unfolding np_square_def mk_mat_def
  by (auto intro!: nth_equalityI simp: is_mat_iff)

lemma concat_column: "is_mat n 1 u \<Longrightarrow> concat u = map (\<lambda>r. r ! 0) u"
proof (induction u arbitrary: n)
  case Nil
  then show ?case by simp
next
  case (Cons r u)
  then have "length r = 1" and "is_mat (n - 1) 1 u"
    by (auto simp: is_mat_def)
  then show ?case using Cons.IH[of "n - 1"]
    by (cases r) auto
qed

lemma np_outer_mk:
  assumes "is_mat n 1 u" and "is_mat m 1 v"
  shows "np_outer u v = mk_mat n m (\<lambda>i j. u ! i ! 0 * v ! j ! 0)"
  using assms unfolding np_outer_def mk_mat_def
  by (auto intro!: nth_equalityI simp: concat_column[OF assms(1)] concat_column[OF assms(2)] is_mat_iff)

lemma rev_mk:
  assumes "is_mat n m M"
  shows "rev M = mk_mat n m (\<lambda>i j. M ! (n - 1 - i) ! j)"
  using assms unfolding mk_mat_def
  by (auto intro!: nth_equalityI simp: is_mat_iff rev_nth)

lemma np_zeros_mk: "np_zeros n m = mk_mat n m (\<lambda>i j. 0)"
  unfolding np_zeros_def mk_mat_def
  by (auto intro!: nth_equalityI)

lemma mk_mat_append:
  "mk_mat n m f @ mk_mat n' m g = mk_mat (n + n') m (\<lambda>i j. if i < n then f i j else g (i - n) j)"
  unfolding mk_mat_def
  by (auto intro!: nth_equalityI simp: nth_append)

lemma length_mk_mat [simp]: "length (mk_mat n m f) = n"
  by (simp add: mk_mat_def)

lemma ncols_mk_mat [simp]: "0 < n \<Longrightarrow> ncols (mk_mat n m f) = m"
  using is_mat_ncols[OF is_mat_mk_mat] by simp

lemma mk_mat_cong' [cong]:
  "n = n' \<Longrightarrow> m = m' \<Longrightarrow> (\<And>i j. i < n' \<Longrightarrow> j < m' \<Longrightarrow> f i j = g i j) \<Longrightarrow>
   mk_mat n m f = mk_mat n' m' g"
  by (simp add: mk_mat_def)

lemma matmul_mk_mk:
  "0 < k \<Longrightarrow> matmul (mk_mat n k f) (mk_mat k m g) = mk_mat n m (\<lambda>i j. \<Sum>l<k. f i l * g l j)"
  unfolding matmul_mk[OF is_mat_mk_mat is_mat_mk_mat]
  by (intro mk_mat_cong sum.cong) (simp_all add: mk_mat_nth)

lemma mT_mk_mk: "0 < n \<Longrightarrow> mT (mk_mat n m f) = mk_mat m n (\<lambda>j i. f i j)"
  by (simp add: mT_mk[OF is_mat_mk_mat] mk_mat_nth)

lemma mat_add_mk_mk: "mat_add (mk_mat n m f) (mk_mat n m g) = mk_mat n m (\<lambda>i j. f i j + g i j)"
  by (simp add: mat_add_mk[OF is_mat_mk_mat is_mat_mk_mat] mk_mat_nth)

lemma mat_sub_mk_mk: "mat_sub (mk_mat n m f) (mk_mat n m g) = mk_mat n m (\<lambda>i j. f i j - g i j)"
  by (simp add: mat_sub_mk[OF is_mat_mk_mat is_mat_mk_mat] mk_mat_nth)

lemma smul_mk_mk: "smul c (mk_mat n m f) = mk_mat n m (\<lambda>i j. c * f i j)"
  by (simp add: smul_mk[OF is_mat_mk_mat] mk_mat_nth)

lemma np_square_mk_mk: "np_square (mk_mat n m f) = mk_mat n m (\<lambda>i j. f i j * f i j)"
  by (simp add: np_square_mk[OF is_mat_mk_mat] mk_mat_nth)

lemma np_outer_mk_mk:
  "np_outer (mk_mat n 1 f) (mk_mat m 1 g) = mk_mat n m (\<lambda>i j. f i 0 * g j 0)"
  unfolding np_outer_mk[OF is_mat_mk_mat is_mat_mk_mat]
  by (intro mk_mat_cong) (simp_all add: mk_mat_nth)

lemma np_outer_mk_mk':
  "np_outer (mk_mat n (Suc 0) f) (mk_mat m (Suc 0) g) = mk_mat n m (\<lambda>i j. f i 0 * g j 0)"
  using np_outer_mk_mk[of n f m g] by simp

lemma rev_mk_mk: "rev (mk_mat n m f) = mk_mat n m (\<lambda>i j. f (n - 1 - i) j)"
  by (simp add: rev_mk[OF is_mat_mk_mat] mk_mat_nth)

lemma mk_mat_1_1: "mk_mat 1 1 f = [[f 0 0]]"
  by (simp add: mk_mat_def)

lemma singleton_mk_mat: "[[c]] = mk_mat 1 1 (\<lambda>i j. c)"
  by (simp add: mk_mat_def)

lemma row_mk_mat: "[v] = mk_mat 1 (length v) (\<lambda>i j. v ! j)"
  by (simp add: mk_mat_def map_nth)

lemma scal_mk_mat: "0 < n \<Longrightarrow> 0 < m \<Longrightarrow> scal (mk_mat n m f) = f 0 0"
  by (simp add: scal_def mk_mat_nth)

section \<open>One pass of the loop of \<open>IIRuncFilter\<close>\<close>

lemmas mk_simps = matmul_mk_mk mT_mk_mk mat_add_mk_mk mat_sub_mk_mk smul_mk_mk np_square_mk_mk
  np_outer_mk_mk rev_mk_mk scal_mk_mat mk_mat_append

lemma neg_rev_tail_nth:
  "length a = Suc p \<Longrightarrow> l < p \<Longrightarrow> neg_vec (rev (drop (Suc 0) a)) ! l = - (a ! (p - l))"
  using neg_rev_tail[of a] by simp

lemma phi_mid:
  assumes "0 < p" and "length a = Suc p"
  shows "scal (matmul [neg_vec (rev (drop 1 a))] (mk_mat p 1 fz)) = (\<Sum>k<p. - (a ! (p - k)) * fz k 0)"
proof -
  have len: "length (neg_vec (rev (drop 1 a))) = p" using assms by (simp add: neg_vec_def)
  have "[neg_vec (rev (drop 1 a))] = mk_mat 1 p (\<lambda>i j. neg_vec (rev (drop 1 a)) ! j)"
    using row_mk_mat[of "neg_vec (rev (drop 1 a))"] len by simp
  then have "matmul [neg_vec (rev (drop 1 a))] (mk_mat p 1 fz)
      = mk_mat 1 1 (\<lambda>i j. \<Sum>l<p. neg_vec (rev (drop 1 a)) ! l * fz l j)"
    using assms(1) by (simp add: matmul_mk_mk)
  then have "scal (matmul [neg_vec (rev (drop 1 a))] (mk_mat p 1 fz))
      = (\<Sum>l<p. neg_vec (rev (drop 1 a)) ! l * fz l 0)"
    by (simp add: scal_mk_mat)
  also have "\<dots> = (\<Sum>k<p. - (a ! (p - k)) * fz k 0)"
    by (intro sum.cong) (simp_all add: neg_rev_tail_nth[OF assms(2)])
  finally show ?thesis .
qed

lemma phi_vec_mk:
  assumes "0 < p" and "length a = Suc p"
  shows "phi_vec a (mk_mat 1 p fc) [[b0]] (mk_mat p p fd) (mk_mat p 1 fz) xn
       = mk_mat (2 * p + 1) 1
           (\<lambda>i j. if i < p then (\<Sum>k<p. fc 0 k * fd k i) - b0 * fz (p - 1 - i) 0
                   else if i = p then (\<Sum>k<p. - (a ! (p - k)) * fz k 0) + xn
                   else fz (2 * p - i) 0)"
proof -
  have top: "mT (mat_sub (matmul (mk_mat 1 p fc) (mk_mat p p fd))
                  (mT (smul (scal [[b0]]) (rev (mk_mat p 1 fz)))))
       = mk_mat p 1 (\<lambda>i j. (\<Sum>k<p. fc 0 k * fd k i) - b0 * fz (p - 1 - i) 0)"
    using assms(1) by (simp add: mk_simps scal_def, intro mk_mat_cong, simp)
  have mid: "[[scal (matmul [neg_vec (rev (drop 1 a))] (mk_mat p 1 fz)) + xn]]
       = mk_mat 1 1 (\<lambda>i j. (\<Sum>k<p. - (a ! (p - k)) * fz k 0) + xn)"
    by (simp only: phi_mid[OF assms] mk_mat_1_1)
  have bot: "rev (mk_mat p 1 fz) = mk_mat p 1 (\<lambda>i j. fz (p - 1 - i) 0)"
    unfolding rev_mk_mk by (rule mk_mat_cong) simp
  have "phi_vec a (mk_mat 1 p fc) [[b0]] (mk_mat p p fd) (mk_mat p 1 fz) xn
      = mk_mat p 1 (\<lambda>i j. (\<Sum>k<p. fc 0 k * fd k i) - b0 * fz (p - 1 - i) 0)
        @ mk_mat 1 1 (\<lambda>i j. (\<Sum>k<p. - (a ! (p - k)) * fz k 0) + xn)
        @ mk_mat p 1 (\<lambda>i j. fz (p - 1 - i) 0)"
    unfolding phi_vec_def by (intro arg_cong2[where f="(@)"] top mid bot)
  also have "\<dots> = mk_mat (2 * p + 1) 1
           (\<lambda>i j. if i < p then (\<Sum>k<p. fc 0 k * fd k i) - b0 * fz (p - 1 - i) 0
                   else if i = p then (\<Sum>k<p. - (a ! (p - k)) * fz k 0) + xn
                   else fz (2 * p - i) 0)"
    unfolding mk_mat_append
    by (rule mk_mat_cong') (auto intro!: arg_cong2[where f=fz])
  finally show ?thesis .
qed

lemma quad_swap:
  fixes f :: "nat \<Rightarrow> nat \<Rightarrow> real"
  shows "(\<Sum>j<m. (\<Sum>i<n. f i j) * g j) = (\<Sum>i<n. \<Sum>j<m. f i j * g j)"
proof -
  have "(\<Sum>j<m. (\<Sum>i<n. f i j) * g j) = (\<Sum>j<m. \<Sum>i<n. f i j * g j)"
    by (simp add: sum_distrib_right)
  also have "\<dots> = (\<Sum>i<n. \<Sum>j<m. f i j * g j)"
    by (rule sum.swap)
  finally show ?thesis .
qed

lemma step_y_mk:
  assumes "0 < p"
  shows "scal (mat_add (matmul (mk_mat 1 p fc) (mk_mat p 1 fz)) (smul xn [[b0]]))
       = (\<Sum>k<p. fc 0 k * fz k 0) + b0 * xn"
proof -
  have "smul xn [[b0]] = mk_mat 1 1 (\<lambda>i j. xn * b0)"
    by (simp add: smul_def mk_mat_def)
  then show ?thesis using assms
    by (simp add: matmul_mk_mk mat_add_mk_mk scal_mk_mat mult.commute)
qed

lemma step_quad_full_mk:
  assumes "0 < m"
  shows "matmul (matmul (mT (mk_mat m 1 (\<lambda>i j. phi i))) (mk_mat m m fU))
                      (mk_mat m 1 (\<lambda>i j. phi i))
       = mk_mat 1 1 (\<lambda>i j. \<Sum>i<m. \<Sum>j<m. phi i * fU i j * phi j)"
proof -
  have "matmul (matmul (mT (mk_mat m 1 (\<lambda>i j. phi i))) (mk_mat m m fU))
               (mk_mat m 1 (\<lambda>i j. phi i))
      = mk_mat 1 1 (\<lambda>i j. \<Sum>l<m. (\<Sum>k<m. phi k * fU k l) * phi l)"
    using assms by (simp add: mT_mk_mk matmul_mk_mk)
  also have "\<dots> = mk_mat 1 1 (\<lambda>i j. \<Sum>i<m. \<Sum>j<m. phi i * fU i j * phi j)"
    by (rule mk_mat_cong) (simp add: quad_swap)
  finally show ?thesis .
qed

lemma step_cpc_mk:
  assumes "0 < p"
  shows "matmul (matmul (mk_mat 1 p fc) (mk_mat p p fP)) (mT (mk_mat 1 p fc))
       = mk_mat 1 1 (\<lambda>i j. \<Sum>k<p. \<Sum>l<p. fc 0 k * fP k l * fc 0 l)"
proof -
  have "matmul (matmul (mk_mat 1 p fc) (mk_mat p p fP)) (mT (mk_mat 1 p fc))
      = mk_mat 1 1 (\<lambda>i j. \<Sum>l<p. (\<Sum>k<p. fc i k * fP k l) * fc j l)"
    using assms by (simp add: mT_mk_mk matmul_mk_mk)
  also have "\<dots> = mk_mat 1 1 (\<lambda>i j. \<Sum>k<p. \<Sum>l<p. fc 0 k * fP k l * fc 0 l)"
    by (rule mk_mat_cong) (simp add: quad_swap)
  finally show ?thesis .
qed

lemma step_P_mk:
  assumes "0 < p"
  shows "mat_add (matmul (matmul (mk_mat p p fA) (mk_mat p p fP)) (mT (mk_mat p p fA)))
                 (smul c (np_outer (mk_mat p 1 fb) (mk_mat p 1 fb)))
       = mk_mat p p (\<lambda>i j. (\<Sum>k<p. \<Sum>l<p. fA i k * fP k l * fA j l) + c * (fb i 0 * fb j 0))"
proof -
  have "mat_add (matmul (matmul (mk_mat p p fA) (mk_mat p p fP)) (mT (mk_mat p p fA)))
                 (smul c (np_outer (mk_mat p 1 fb) (mk_mat p 1 fb)))
      = mk_mat p p (\<lambda>i j. (\<Sum>l<p. (\<Sum>k<p. fA i k * fP k l) * fA j l) + c * (fb i 0 * fb j 0))"
    using assms by (simp add: mT_mk_mk matmul_mk_mk np_outer_mk_mk' smul_mk_mk mat_add_mk_mk)
  also have "\<dots> = mk_mat p p (\<lambda>i j. (\<Sum>k<p. \<Sum>l<p. fA i k * fP k l * fA j l) + c * (fb i 0 * fb j 0))"
    by (rule mk_mat_cong) (simp add: quad_swap)
  finally show ?thesis .
qed

lemma step_dz_mk:
  assumes "0 < p"
  shows "mat_add (matmul (mk_mat p p fA) (mk_mat p p fd))
                 (np_zeros (p - 1) p @ mT (smul (- 1) (rev (mk_mat p 1 fz))))
       = mk_mat p p (\<lambda>i j. (\<Sum>k<p. fA i k * fd k j)
                            + (if Suc i = p then - (fz (p - 1 - j) 0) else 0))"
proof -
  have dA: "np_zeros (p - 1) p @ mT (smul (- 1) (rev (mk_mat p 1 fz)))
      = mk_mat p p (\<lambda>i j. if Suc i = p then - (fz (p - 1 - j) 0) else 0)"
    using assms
    by (simp add: np_zeros_mk rev_mk_mk smul_mk_mk mT_mk_mk mk_mat_append, intro mk_mat_cong')
       auto
  show ?thesis
    unfolding dA using assms by (simp add: matmul_mk_mk mat_add_mk_mk)
qed

lemma step_z_mk:
  assumes "0 < p"
  shows "mat_add (matmul (mk_mat p p fA) (mk_mat p 1 fz)) (smul xn (mk_mat p 1 fb))
       = mk_mat p 1 (\<lambda>i j. (\<Sum>k<p. fA i k * fz k 0) + fb i 0 * xn)"
proof -
  have "mat_add (matmul (mk_mat p p fA) (mk_mat p 1 fz)) (smul xn (mk_mat p 1 fb))
      = mk_mat p 1 (\<lambda>i j. (\<Sum>k<p. fA i k * fz k j) + xn * fb i j)"
    using assms by (simp add: matmul_mk_mk smul_mk_mk mat_add_mk_mk)
  also have "\<dots> = mk_mat p 1 (\<lambda>i j. (\<Sum>k<p. fA i k * fz k 0) + fb i 0 * xn)"
    by (rule mk_mat_cong) (simp add: mult.commute)
  finally show ?thesis .
qed

lemma iir_step_diag:
  assumes p: "0 < p" and a: "length a = Suc p"
    and A: "is_mat p p A" and bs: "is_mat p 1 bs" and cT: "is_mat 1 p cT"
    and z: "is_mat p 1 z" and dz: "is_mat p p dz" and P: "is_mat p p P"
    and Uab: "is_mat (2 * p + 1) (2 * p + 1) Uab"
    and n: "n < length Ux"
  shows "iir_step ''diag'' a Uab (A, bs, cT, [[b0]]) cu Ux n xn (z, dz, P)
       = Inr (spec_y p cT b0 z xn,
              spec_Uy p (spec_phi p a cT b0 dz z xn) Uab cT P b0 (Ux ! n),
              (spec_z p A z bs xn, spec_dz p A dz z, spec_P p A P bs (Ux ! n)))"
proof -
  note eA = mat_eq_mk_mat[OF A] and ebs = mat_eq_mk_mat[OF bs] and ecT = mat_eq_mk_mat[OF cT]
    and ez = mat_eq_mk_mat[OF z] and edz = mat_eq_mk_mat[OF dz] and eP = mat_eq_mk_mat[OF P]
    and eU = mat_eq_mk_mat[OF Uab]
  let ?phi = "spec_phi p a cT b0 dz z xn"
  have phi: "phi_vec a cT [[b0]] dz z xn = mk_mat (2 * p + 1) 1 (\<lambda>i j. ?phi i)"
  proof -
    have "phi_vec a cT [[b0]] dz z xn
        = phi_vec a (mk_mat 1 p (\<lambda>i j. cT ! i ! j)) [[b0]] (mk_mat p p (\<lambda>i j. dz ! i ! j))
            (mk_mat p 1 (\<lambda>i j. z ! i ! j)) xn"
      by (simp only: ecT[symmetric] edz[symmetric] ez[symmetric])
    also have "\<dots> = mk_mat (2 * p + 1) 1 (\<lambda>i j. ?phi i)"
      unfolding phi_vec_mk[OF p a] spec_phi_def ..
    finally show ?thesis .
  qed
  have y: "scal (mat_add (matmul cT z) (smul xn [[b0]])) = spec_y p cT b0 z xn"
  proof -
    have "scal (mat_add (matmul cT z) (smul xn [[b0]]))
        = scal (mat_add (matmul (mk_mat 1 p (\<lambda>i j. cT ! i ! j)) (mk_mat p 1 (\<lambda>i j. z ! i ! j)))
                  (smul xn [[b0]]))"
      by (simp only: ecT[symmetric] ez[symmetric])
    also have "\<dots> = spec_y p cT b0 z xn"
      unfolding step_y_mk[OF p] spec_y_def ..
    finally show ?thesis .
  qed
  have m: "0 < 2 * p + 1" by simp
  have quad: "matmul (matmul (mT (mk_mat (2 * p + 1) 1 (\<lambda>i j. ?phi i))) Uab)
                     (mk_mat (2 * p + 1) 1 (\<lambda>i j. ?phi i))
            = mk_mat 1 1 (\<lambda>i j. \<Sum>i<2 * p + 1. \<Sum>j<2 * p + 1. ?phi i * Uab ! i ! j * ?phi j)"
  proof -
    have "matmul (matmul (mT (mk_mat (2 * p + 1) 1 (\<lambda>i j. ?phi i))) Uab)
                     (mk_mat (2 * p + 1) 1 (\<lambda>i j. ?phi i))
        = matmul (matmul (mT (mk_mat (2 * p + 1) 1 (\<lambda>i j. ?phi i)))
                    (mk_mat (2 * p + 1) (2 * p + 1) (\<lambda>i j. Uab ! i ! j)))
                     (mk_mat (2 * p + 1) 1 (\<lambda>i j. ?phi i))"
      by (simp only: eU[symmetric])
    also have "\<dots> = mk_mat 1 1 (\<lambda>i j. \<Sum>i<2 * p + 1. \<Sum>j<2 * p + 1. ?phi i * Uab ! i ! j * ?phi j)"
      by (rule step_quad_full_mk[OF m])
    finally show ?thesis .
  qed
  have cpc: "matmul (matmul cT P) (mT cT)
           = mk_mat 1 1 (\<lambda>i j. \<Sum>k<p. \<Sum>l<p. cT ! 0 ! k * P ! k ! l * cT ! 0 ! l)"
  proof -
    have "matmul (matmul cT P) (mT cT)
        = matmul (matmul (mk_mat 1 p (\<lambda>i j. cT ! i ! j)) (mk_mat p p (\<lambda>i j. P ! i ! j)))
                 (mT (mk_mat 1 p (\<lambda>i j. cT ! i ! j)))"
      by (simp only: ecT[symmetric] eP[symmetric])
    also have "\<dots> = mk_mat 1 1 (\<lambda>i j. \<Sum>k<p. \<Sum>l<p. cT ! 0 ! k * P ! k ! l * cT ! 0 ! l)"
      by (rule step_cpc_mk[OF p])
    finally show ?thesis .
  qed
  have sq: "np_square (smul (Ux ! n) [[b0]]) = mk_mat 1 1 (\<lambda>i j. (b0 * Ux ! n) * (b0 * Ux ! n))"
    by (simp add: np_square_def smul_def mk_mat_def mult.commute)
  have uy: "scal (mat_add (mat_add (matmul (matmul (mT (phi_vec a cT [[b0]] dz z xn)) Uab)
                                      (phi_vec a cT [[b0]] dz z xn))
                             (matmul (matmul cT P) (mT cT)))
                    (np_square (smul (Ux ! n) [[b0]])))
          = spec_Uy p ?phi Uab cT P b0 (Ux ! n)"
    unfolding phi quad cpc sq
    by (simp add: mat_add_mk_mk scal_mk_mat spec_Uy_def)
  have P': "mat_add (matmul (matmul A P) (mT A)) (smul (Ux ! n * Ux ! n) (np_outer bs bs))
          = spec_P p A P bs (Ux ! n)"
  proof -
    have "mat_add (matmul (matmul A P) (mT A)) (smul (Ux ! n * Ux ! n) (np_outer bs bs))
        = mat_add (matmul (matmul (mk_mat p p (\<lambda>i j. A ! i ! j)) (mk_mat p p (\<lambda>i j. P ! i ! j)))
                          (mT (mk_mat p p (\<lambda>i j. A ! i ! j))))
                  (smul (Ux ! n * Ux ! n)
                     (np_outer (mk_mat p 1 (\<lambda>i j. bs ! i ! j)) (mk_mat p 1 (\<lambda>i j. bs ! i ! j))))"
      by (simp only: eA[symmetric] eP[symmetric] ebs[symmetric])
    also have "\<dots> = spec_P p A P bs (Ux ! n)"
      unfolding step_P_mk[OF p] spec_P_def ..
    finally show ?thesis .
  qed
  have dz': "mat_add (matmul A dz) (np_zeros (p - 1) p @ mT (smul (- 1) (rev z)))
           = spec_dz p A dz z"
  proof -
    have "mat_add (matmul A dz) (np_zeros (p - 1) p @ mT (smul (- 1) (rev z)))
        = mat_add (matmul (mk_mat p p (\<lambda>i j. A ! i ! j)) (mk_mat p p (\<lambda>i j. dz ! i ! j)))
            (np_zeros (p - 1) p @ mT (smul (- 1) (rev (mk_mat p 1 (\<lambda>i j. z ! i ! j)))))"
      by (simp only: eA[symmetric] edz[symmetric] ez[symmetric])
    also have "\<dots> = spec_dz p A dz z"
      unfolding step_dz_mk[OF p] spec_dz_def ..
    finally show ?thesis .
  qed
  have z': "mat_add (matmul A z) (smul xn bs) = spec_z p A z bs xn"
  proof -
    have "mat_add (matmul A z) (smul xn bs)
        = mat_add (matmul (mk_mat p p (\<lambda>i j. A ! i ! j)) (mk_mat p 1 (\<lambda>i j. z ! i ! j)))
            (smul xn (mk_mat p 1 (\<lambda>i j. bs ! i ! j)))"
      by (simp only: eA[symmetric] ez[symmetric] ebs[symmetric])
    also have "\<dots> = spec_z p A z bs xn"
      unfolding step_z_mk[OF p] spec_z_def ..
    finally show ?thesis .
  qed
  have pa: "length a - 1 = p" using a by simp
  show ?thesis
    unfolding iir_step_def Let_def prod.case pa y uy P' dz' z'
    using n p by simp
qed

section \<open>The recursion of \<open>IIRuncFilter\<close>\<close>

lemma spec_shapes:
  "is_mat p 1 (spec_z p A z bs xn)" "is_mat p p (spec_dz p A dz z)" "is_mat p p (spec_P p A P bs ux)"
  by (simp_all add: spec_z_def spec_dz_def spec_P_def is_mat_mk_mat)

lemma iir_loop_diag:
  assumes "0 < p" and "length a = Suc p"
    and "is_mat p p A" and "is_mat p 1 bs" and "is_mat 1 p cT"
    and "is_mat (2 * p + 1) (2 * p + 1) Uab"
    and "is_mat p 1 z" and "is_mat p p dz" and "is_mat p p P"
    and "n + length xs \<le> length Ux"
  shows "iir_loop ''diag'' a Uab (A, bs, cT, [[b0]]) cu Ux n xs (z, dz, P)
       = Inr (spec_run p a Uab A bs cT b0 Ux n xs (z, dz, P))"
  using assms(7-)
proof (induction xs arbitrary: n z dz P)
  case Nil
  show ?case by simp
next
  case (Cons xn xs)
  from Cons.prems have n: "n < length Ux" and n': "Suc n + length xs \<le> length Ux" by simp_all
  have step: "iir_step ''diag'' a Uab (A, bs, cT, [[b0]]) cu Ux n xn (z, dz, P)
       = Inr (spec_y p cT b0 z xn,
              spec_Uy p (spec_phi p a cT b0 dz z xn) Uab cT P b0 (Ux ! n),
              (spec_z p A z bs xn, spec_dz p A dz z, spec_P p A P bs (Ux ! n)))"
    using assms(1-6) Cons.prems(1-3) n by (intro iir_step_diag)
  have IH: "iir_loop ''diag'' a Uab (A, bs, cT, [[b0]]) cu Ux (Suc n) xs
              (spec_z p A z bs xn, spec_dz p A dz z, spec_P p A P bs (Ux ! n))
       = Inr (spec_run p a Uab A bs cT b0 Ux (Suc n) xs
              (spec_z p A z bs xn, spec_dz p A dz z, spec_P p A P bs (Ux ! n)))"
    using n' by (intro Cons.IH spec_shapes)
  show ?case
    by (simp add: step IH Let_def split: prod.splits)
qed

text \<open>
  C3: in \<open>IIRuncFilter\<close> with the uncorrelated noise model (\<open>kind = "diag"\<close>), for a filter
  of order \<open>p \<ge> 1\<close>, a coefficient covariance of shape \<open>(2p+1, 2p+1)\<close>, a start state of
  the shapes of the filter and an uncertainty for every sample, the call returns what the
  recursion of the specification gives: for every sample \<open>y[n] = C\<^sup>T z + b0 x[n]\<close> and
  \<open>\<phi>\<^sup>T Uab \<phi> + C\<^sup>T P C + (b0 Ux[n])\<^sup>2\<close>, then \<open>P \<leftarrow> A P A\<^sup>T + Ux[n]\<^sup>2 B B\<^sup>T\<close>,
  \<open>dz \<leftarrow> A dz + dA_row\<close>, \<open>z \<leftarrow> A z + B x[n]\<close>, and after the loop \<open>Uy \<leftarrow> sqrt(|Uy|)\<close>
  elementwise.
\<close>

theorem IIRuncFilter_diag_recursion:
  assumes "0 < p" and "length a = Suc p"
    and "pad_b b a = Inr b'"
    and "default_Uab Uab (int p) = Inr U" and "is_mat (2 * p + 1) (2 * p + 1) U"
    and "start_state ext init_internal_state ''diag'' b' a (ux_vector Ux x) = Inr st"
    and "st_system st = (A, bs, cT, [[b0]])"
    and "is_mat p p A" and "is_mat p 1 bs" and "is_mat 1 p cT"
    and "is_mat p 1 (st_z st)" and "is_mat p p (st_dz st)" and "is_mat p p (st_P st)"
    and "length x \<le> length (ux_vector Ux x)"
  shows "IIRuncFilter ext x Ux b a Uab init_internal_state return_state ''diag'' =
     (case spec_run p a U A bs cT b0 (ux_vector Ux x) 0 x (st_z st, st_dz st, st_P st) of
        (ys, uys, (z', dz', P')) \<Rightarrow>
          Inr (ys, map (\<lambda>u. sqrt \<bar>u\<bar>) uys,
               if return_state
               then Some \<lparr>st_z = z', st_dz = dz', st_P = P', st_system = st_system st,
                          st_corr_unc = st_corr_unc st\<rparr>
               else None))"
proof -
  have pa: "int (length a) - 1 = int p" using assms(2) by simp
  have loop: "iir_loop ''diag'' a U (st_system st) (st_corr_unc st) (ux_vector Ux x) 0 x
                (st_z st, st_dz st, st_P st)
            = Inr (spec_run p a U A bs cT b0 (ux_vector Ux x) 0 x (st_z st, st_dz st, st_P st))"
    unfolding assms(7)
    using assms(1,2,8,9,10,5,11,12,13) assms(14) by (intro iir_loop_diag) simp_all
  show ?thesis
    unfolding IIRuncFilter_def Let_def pa
    by (simp add: assms(3,4,6) loop split: prod.splits)
qed

lemma tf2ss_lowpass: "tf2ss [1/2, 0] [1, - (1/2)] = Inr ([[1/2]], [[1]], [[1/4]], [[1/2]])"
  by (simp add: tf2ss_def np_eye_def eye_mat_def np_zeros_def np_sub_def neg_vec_def smul_vec_def)

lemma init_lowpass:
  "get_initial_internal_state ext_first_order [1/2, 0] [1, - (1/2)] 0 0 None
     = Inr \<lparr>st_z = [[0]], st_dz = [[0]], st_P = [[0]],
            st_system = ([[1/2]], [[1]], [[1/4]], [[1/2]]), st_corr_unc = 0\<rparr>"
  by (simp add: get_initial_internal_state_def tf2ss_lowpass ext_first_order_def solve_1x1_def
      lyapunov_1x1_def eye_mat_def mat_sub_def smul_def get_derivative_A_def np_zeros_def
      np_hstack_def matmul_def nrows_def ncols_def np_outer_def)

lemma run_lowpass:
  "spec_run 1 [1, - (1/2)] (np_zeros 3 3) [[1/2]] [[1]] [[1/4]] (1/2) [1, 1] 0 [1, 2]
     ([[0]], [[0]], [[0]])
   = ([1/2, 5/4], [1/4, 5/16], ([[5/2]], [[- 1]], [[5/4]]))"
  by (simp add: spec_y_def spec_Uy_def spec_phi_def spec_P_def spec_dz_def spec_z_def mk_mat_def
      np_zeros_def eval_nat_numeral)

lemma is_mat_np_zeros: "is_mat n m (np_zeros n m)"
  by (simp add: np_zeros_mk is_mat_mk_mat)

lemma is_mat_1x1: "is_mat 1 1 [[c]]"
  by (simp add: is_mat_def)

theorem IIRuncFilter_diag_recursion_witness:
  "IIRuncFilter ext_first_order [1, 2] (UxFloat 1) [1/2, 0] [1, - (1/2)] None None False ''diag''
     = Inr ([1/2, 5/4], map (\<lambda>u. sqrt \<bar>u\<bar>) [1/4, 5/16], None)"
proof -
  let ?st = "\<lparr>st_z = [[0]], st_dz = [[0]], st_P = [[0]],
              st_system = ([[1/2]], [[1]], [[1/4]], [[1/2]]), st_corr_unc = 0\<rparr>"
  have ux: "ux_vector (UxFloat 1) [1, 2] = [1, 1]"
    by (simp add: ux_vector_def)
  have h1: "(0::nat) < 1" and h2: "length [1, - (1/2) :: real] = Suc 1"
    and h3: "pad_b [1/2, 0] [1, - (1/2)] = Inr [1/2, 0]"
    and h4: "default_Uab None (int 1) = Inr (np_zeros 3 3)"
    and h5: "is_mat (2 * 1 + 1) (2 * 1 + 1) (np_zeros 3 3)"
    and h6: "start_state ext_first_order None ''diag'' [1/2, 0] [1, - (1/2)]
               (ux_vector (UxFloat 1) [1, 2]) = Inr ?st"
    and h7: "st_system ?st = ([[1/2]], [[1]], [[1/4]], [[1/2]])"
    and h8: "is_mat 1 1 [[1/2]]" "is_mat 1 1 [[1]]" "is_mat 1 1 [[1/4]]"
            "is_mat 1 1 (st_z ?st)" "is_mat 1 1 (st_dz ?st)" "is_mat 1 1 (st_P ?st)"
    and h9: "length [1, 2 :: real] \<le> length (ux_vector (UxFloat 1) [1, 2])"
    using is_mat_np_zeros[of 3 3]
    by (simp_all add: pad_b_def default_Uab_def start_state_def init_lowpass ux is_mat_def)
  show ?thesis
    unfolding IIRuncFilter_diag_recursion[OF h1 h2 h3 h4 h5 h6 h7 h8 h9] ux
    by (simp only: run_lowpass internal_state.select_convs prod.case if_False)
qed

section \<open>Checkpoints of \<open>IIRuncFilter\<close>\<close>

lemma iir_loop_append:
  "iir_loop kind a Uab sys cu Ux n (xs @ ys) st =
     (case iir_loop kind a Uab sys cu Ux n xs st of
        Inl e \<Rightarrow> Inl e
      | Inr (y1, u1, st1) \<Rightarrow>
          (case iir_loop kind a Uab sys cu Ux (n + length xs) ys st1 of
             Inl e \<Rightarrow> Inl e
           | Inr (y2, u2, st2) \<Rightarrow> Inr (y1 @ y2, u1 @ u2, st2)))"
proof (induction xs arbitrary: n st)
  case Nil
  show ?case by (simp split: sum.splits prod.splits)
next
  case (Cons x xs)
  show ?case
    by (simp add: Cons.IH split: sum.splits prod.splits)
qed

lemma iir_step_diag_cong:
  assumes "n < length U \<longleftrightarrow> n' < length U'" and "n < length U \<Longrightarrow> U ! n = U' ! n'"
  shows "iir_step ''diag'' a Uab sys cu U n xn st = iir_step ''diag'' a Uab sys cu U' n' xn st"
  using assms by (auto simp: iir_step_def Let_def split: prod.splits)

lemma iir_loop_diag_cong:
  assumes "\<And>i. i < length xs \<Longrightarrow> (n + i < length U \<longleftrightarrow> n' + i < length U')"
    and "\<And>i. i < length xs \<Longrightarrow> n + i < length U \<Longrightarrow> U ! (n + i) = U' ! (n' + i)"
  shows "iir_loop ''diag'' a Uab sys cu U n xs st = iir_loop ''diag'' a Uab sys cu U' n' xs st"
  using assms
proof (induction xs arbitrary: n n' st)
  case Nil
  show ?case by simp
next
  case (Cons x xs)
  have step: "iir_step ''diag'' a Uab sys cu U n x st = iir_step ''diag'' a Uab sys cu U' n' x st"
    using Cons.prems(1)[of 0] Cons.prems(2)[of 0] by (intro iir_step_diag_cong) simp_all
  have rest: "iir_loop ''diag'' a Uab sys cu U (Suc n) xs s = iir_loop ''diag'' a Uab sys cu U' (Suc n') xs s"
    for s
    using Cons.prems(1)[of "Suc i" for i] Cons.prems(2)[of "Suc i" for i]
    by (intro Cons.IH) simp_all
  show ?case by (simp add: step rest split: sum.splits prod.splits)
qed

lemma iir_step_corr_index:
  "kind \<noteq> ''diag'' \<Longrightarrow>
   iir_step kind a Uab sys cu U n xn st = iir_step kind a Uab sys cu U n' xn st"
  by (simp add: iir_step_def)

lemma iir_loop_corr_index:
  "kind \<noteq> ''diag'' \<Longrightarrow>
   iir_loop kind a Uab sys cu U n xs st = iir_loop kind a Uab sys cu U n' xs st"
proof (induction xs arbitrary: n n' st)
  case Nil
  show ?case by simp
next
  case (Cons x xs)
  have step: "iir_step kind a Uab sys cu U n x st = iir_step kind a Uab sys cu U n' x st"
    using Cons.prems by (rule iir_step_corr_index)
  have rest: "iir_loop kind a Uab sys cu U (Suc n) xs s = iir_loop kind a Uab sys cu U (Suc n') xs s"
    for s
    using Cons.prems by (rule Cons.IH)
  show ?case by (simp add: step rest split: sum.splits prod.splits)
qed

lemma IIRuncFilter_unfold:
  "IIRuncFilter ext x Ux b a Uab init rs kind =
     (case default_Uab Uab (int (length a) - 1) of
        Inl e \<Rightarrow> Inl e
      | Inr U \<Rightarrow>
          (case pad_b b a of
             Inl e \<Rightarrow> Inl e
           | Inr b' \<Rightarrow>
               (case start_state ext init kind b' a (ux_vector Ux x) of
                  Inl e \<Rightarrow> Inl e
                | Inr st \<Rightarrow>
                    if 2 * (int (length a) - 1) + 1 < 0 then Inl ValueError
                    else (case iir_loop kind a U (st_system st) (st_corr_unc st) (ux_vector Ux x) 0 x
                                  (st_z st, st_dz st, st_P st) of
                            Inl e \<Rightarrow> Inl e
                          | Inr (y, Uy, (z, dz, P)) \<Rightarrow>
                              Inr (y, map (\<lambda>u. sqrt \<bar>u\<bar>) Uy,
                                   if rs
                                   then Some \<lparr>st_z = z, st_dz = dz, st_P = P,
                                              st_system = st_system st,
                                              st_corr_unc = st_corr_unc st\<rparr>
                                   else None)))))"
  by (simp add: IIRuncFilter_def Let_def)

lemma iir_loop_split:
  "iir_loop kind a U sys cu V 0 x st =
     (case iir_loop kind a U sys cu V 0 (take k x) st of
        Inl e \<Rightarrow> Inl e
      | Inr (y1, u1, st1) \<Rightarrow>
          (case iir_loop kind a U sys cu V (length (take k x)) (drop k x) st1 of
             Inl e \<Rightarrow> Inl e
           | Inr (y2, u2, st2) \<Rightarrow> Inr (y1 @ y2, u1 @ u2, st2)))"
  using iir_loop_append[of kind a U sys cu V 0 "take k x" "drop k x" st]
  by (simp only: append_take_drop_id add_0)

lemma chunked_eq_full:
  assumes start: "\<And>b'. start_state ext None kind b' a (ux_vector Ux1 (take k x))
                      = start_state ext None kind b' a (ux_vector Ux x)"
    and loop1: "\<And>U sys cu st. iir_loop kind a U sys cu (ux_vector Ux1 (take k x)) 0 (take k x) st
                      = iir_loop kind a U sys cu (ux_vector Ux x) 0 (take k x) st"
    and loop2: "\<And>U sys cu st. iir_loop kind a U sys cu (ux_vector Ux2 (drop k x)) 0 (drop k x) st
                      = iir_loop kind a U sys cu (ux_vector Ux x) (length (take k x)) (drop k x) st"
  shows "IIRuncFilter_chunked ext (take k x) Ux1 (drop k x) Ux2 b a Uab kind
       = IIRuncFilter ext x Ux b a Uab None False kind"
proof (cases "default_Uab Uab (int (length a) - 1)")
  case (Inl e)
  then show ?thesis by (simp add: IIRuncFilter_chunked_def IIRuncFilter_unfold)
next
  case U: (Inr U)
  show ?thesis
  proof (cases "pad_b b a")
    case (Inl e)
    then show ?thesis by (simp add: IIRuncFilter_chunked_def IIRuncFilter_unfold U)
  next
    case b': (Inr b')
    show ?thesis
    proof (cases "start_state ext None kind b' a (ux_vector Ux x)")
      case (Inl e)
      then show ?thesis by (simp add: IIRuncFilter_chunked_def IIRuncFilter_unfold U b' start)
    next
      case st: (Inr st)
      show ?thesis
      proof (cases "2 * (int (length a) - 1) + 1 < 0")
        case True
        then show ?thesis by (simp add: IIRuncFilter_chunked_def IIRuncFilter_unfold U b' start st)
      next
        case False
        have full: "IIRuncFilter ext x Ux b a Uab None False kind =
            (case iir_loop kind a U (st_system st) (st_corr_unc st) (ux_vector Ux x) 0 x
                    (st_z st, st_dz st, st_P st) of
               Inl e \<Rightarrow> Inl e
             | Inr (y, Uy, s) \<Rightarrow> Inr (y, map (\<lambda>u. sqrt \<bar>u\<bar>) Uy, None))"
          using False by (simp add: IIRuncFilter_unfold U b' st split: sum.splits prod.splits)
        have first: "IIRuncFilter ext (take k x) Ux1 b a Uab None True kind =
            (case iir_loop kind a U (st_system st) (st_corr_unc st) (ux_vector Ux x) 0 (take k x)
                    (st_z st, st_dz st, st_P st) of
               Inl e \<Rightarrow> Inl e
             | Inr (y, Uy, (z, dz, P)) \<Rightarrow>
                 Inr (y, map (\<lambda>u. sqrt \<bar>u\<bar>) Uy,
                      Some \<lparr>st_z = z, st_dz = dz, st_P = P, st_system = st_system st,
                             st_corr_unc = st_corr_unc st\<rparr>))"
          using False
          by (simp add: IIRuncFilter_unfold U b' start st loop1 split: sum.splits prod.splits)
        have second: "IIRuncFilter ext (drop k x) Ux2 b a Uab
               (Some \<lparr>st_z = z, st_dz = dz, st_P = P, st_system = st_system st,
                       st_corr_unc = st_corr_unc st\<rparr>) False kind =
            (case iir_loop kind a U (st_system st) (st_corr_unc st) (ux_vector Ux x)
                    (length (take k x)) (drop k x) (z, dz, P) of
               Inl e \<Rightarrow> Inl e
             | Inr (y, Uy, s) \<Rightarrow> Inr (y, map (\<lambda>u. sqrt \<bar>u\<bar>) Uy, None))" for z dz P
          using False
          by (simp add: IIRuncFilter_unfold U b' start_state_def loop2 split: sum.splits prod.splits)
        show ?thesis
          unfolding IIRuncFilter_chunked_def full first
          by (subst iir_loop_split[where k = k])
             (simp add: second split: sum.splits prod.splits)
      qed
    qed
  qed
qed

lemma start_state_diag:
  "start_state ext None ''diag'' b' a V = start_state ext None ''diag'' b' a V'"
  by (simp add: start_state_def)

lemma chunk_diag_float:
  "IIRuncFilter_chunked ext (take k x) (UxFloat c) (drop k x) (UxFloat c) b a Uab ''diag''
     = IIRuncFilter ext x (UxFloat c) b a Uab None False ''diag''"
proof (rule chunked_eq_full)
  fix b'
  show "start_state ext None ''diag'' b' a (ux_vector (UxFloat c) (take k x))
      = start_state ext None ''diag'' b' a (ux_vector (UxFloat c) x)"
    by (rule start_state_diag)
next
  fix U sys cu st
  show "iir_loop ''diag'' a U sys cu (ux_vector (UxFloat c) (take k x)) 0 (take k x) st
      = iir_loop ''diag'' a U sys cu (ux_vector (UxFloat c) x) 0 (take k x) st"
    by (rule iir_loop_diag_cong) (auto simp: ux_vector_def)
next
  fix U sys cu st
  show "iir_loop ''diag'' a U sys cu (ux_vector (UxFloat c) (drop k x)) 0 (drop k x) st
      = iir_loop ''diag'' a U sys cu (ux_vector (UxFloat c) x) (length (take k x)) (drop k x) st"
    by (rule iir_loop_diag_cong) (auto simp: ux_vector_def min_def)
qed

lemma chunk_diag_array:
  "IIRuncFilter_chunked ext (take k x) (UxArray (take k u)) (drop k x) (UxArray (drop k u)) b a
       Uab ''diag''
     = IIRuncFilter ext x (UxArray u) b a Uab None False ''diag''"
proof (rule chunked_eq_full)
  fix b'
  show "start_state ext None ''diag'' b' a (ux_vector (UxArray (take k u)) (take k x))
      = start_state ext None ''diag'' b' a (ux_vector (UxArray u) x)"
    by (rule start_state_diag)
next
  fix U sys cu st
  show "iir_loop ''diag'' a U sys cu (ux_vector (UxArray (take k u)) (take k x)) 0 (take k x) st
      = iir_loop ''diag'' a U sys cu (ux_vector (UxArray u) x) 0 (take k x) st"
    by (rule iir_loop_diag_cong) (auto simp: ux_vector_def)
next
  fix U sys cu st
  show "iir_loop ''diag'' a U sys cu (ux_vector (UxArray (drop k u)) (drop k x)) 0 (drop k x) st
      = iir_loop ''diag'' a U sys cu (ux_vector (UxArray u) x) (length (take k x)) (drop k x) st"
    by (rule iir_loop_diag_cong) (auto simp: ux_vector_def min_def add.commute)
qed

lemma chunk_corr_array:
  assumes "kind \<noteq> ''diag''"
  shows "IIRuncFilter_chunked ext (take k x) (UxArray u) (drop k x) (UxArray u) b a Uab kind
     = IIRuncFilter ext x (UxArray u) b a Uab None False kind"
proof (rule chunked_eq_full)
  fix b'
  show "start_state ext None kind b' a (ux_vector (UxArray u) (take k x))
      = start_state ext None kind b' a (ux_vector (UxArray u) x)"
    by (simp add: ux_vector_def)
next
  fix U sys cu st
  show "iir_loop kind a U sys cu (ux_vector (UxArray u) (take k x)) 0 (take k x) st
      = iir_loop kind a U sys cu (ux_vector (UxArray u) x) 0 (take k x) st"
    by (simp add: ux_vector_def)
next
  fix U sys cu st
  show "iir_loop kind a U sys cu (ux_vector (UxArray u) (drop k x)) 0 (drop k x) st
      = iir_loop kind a U sys cu (ux_vector (UxArray u) x) (length (take k x)) (drop k x) st"
    using iir_loop_corr_index[OF assms] by (simp add: ux_vector_def)
qed

text \<open>
  The round trip through a checkpoint, for the uncertainties as the docstring describes
  them. For every signal \<open>x\<close> and every split index \<open>k\<close>, running \<open>IIRuncFilter\<close> on
  \<open>x[:k]\<close> with \<open>return_state\<close> set and then on \<open>x[k:]\<close> from the exported state gives the
  same concatenated \<open>(y, Uy)\<close> as one run on \<open>x\<close> (and the same error when a run raises), in
  these cases: in the uncorrelated model with a float \<open>Ux\<close>; in the uncorrelated model with
  an array \<open>Ux\<close> of pointwise uncertainties that is split at \<open>k\<close> like the signal; and in
  the correlated model with the autocovariance array \<open>Ux\<close> passed whole to all three
  calls.
\<close>

theorem IIRuncFilter_checkpoint_roundtrip:
  "IIRuncFilter_chunked ext (take k x) (UxFloat c) (drop k x) (UxFloat c) b a Uab ''diag''
     = IIRuncFilter ext x (UxFloat c) b a Uab None False ''diag''
   \<and> IIRuncFilter_chunked ext (take k x) (UxArray (take k u)) (drop k x) (UxArray (drop k u)) b a
       Uab ''diag''
     = IIRuncFilter ext x (UxArray u) b a Uab None False ''diag''
   \<and> IIRuncFilter_chunked ext (take k x) (UxArray u) (drop k x) (UxArray u) b a Uab ''corr''
     = IIRuncFilter ext x (UxArray u) b a Uab None False ''corr''"
  using chunk_diag_float chunk_diag_array chunk_corr_array[of "''corr''"] by simp

section \<open>Sample runs of \<open>IIRuncFilter\<close>\<close>

lemmas array_defs = matmul_def mT_def mat_add_def mat_sub_def smul_def np_outer_def np_square_def
  scal_def np_zeros_def nrows_def ncols_def neg_vec_def smul_vec_def eye_mat_def np_hstack_def

lemma ext_first_order_sel:
  "solve ext_first_order = solve_1x1"
  "solve_discrete_lyapunov ext_first_order = lyapunov_1x1"
  "dimpulse ext_first_order = dimpulse_exact"
  by (simp_all add: ext_first_order_def)

lemma quad_zero:
  assumes "is_mat m 1 phi" and "0 < m"
  shows "matmul (matmul (mT phi) (np_zeros m m)) phi = [[0]]"
proof -
  have "matmul (matmul (mT phi) (np_zeros m m)) phi
      = matmul (matmul (mT (mk_mat m 1 (\<lambda>i j. phi ! i ! j))) (mk_mat m m (\<lambda>i j. 0)))
               (mk_mat m 1 (\<lambda>i j. phi ! i ! j))"
    by (simp only: mat_eq_mk_mat[OF assms(1), symmetric] np_zeros_mk)
  also have "\<dots> = mk_mat 1 1 (\<lambda>i j. \<Sum>l<m. (\<Sum>k<m. phi ! k ! 0 * 0) * phi ! l ! 0)"
    using assms(2) by (simp add: mT_mk_mk matmul_mk_mk)
  also have "\<dots> = [[0]]"
    by (simp add: mk_mat_def)
  finally show ?thesis .
qed

lemma tf2ss_fir: "tf2ss [1, 1] [1, 0] = Inr ([[0]], [[1]], [[1]], [[1]])"
  by (simp add: tf2ss_def np_eye_def np_sub_def array_defs)

lemma impulse_fir: "impulse_response [1, 1] [1, 0] (Suc (Suc 0)) = [1, 1]"
  by (simp add: Let_def)

lemma corr_unc_two: "get_corr_unc ext_first_order [1, 1] [1, 0] [0, 0] = Inr 4"
  by (simp add: get_corr_unc_def ext_first_order_sel dimpulse_exact_def impulse_fir
      toeplitz_def mat_sum_def mat_add_def upt_rec)

lemma impulse_fir_three: "impulse_response [1, 1] [1, 0] (Suc (Suc (Suc 0))) = [1, 1, 0]"
  by (simp add: Let_def)

lemma corr_unc_three: "get_corr_unc ext_first_order [1, 1] [1, 0] [0, 0, 0] = Inr 7"
  by (simp add: get_corr_unc_def ext_first_order_sel dimpulse_exact_def impulse_fir_three
      toeplitz_def mat_sum_def mat_add_def upt_rec)

lemma init_fir:
  "get_corr_unc ext_first_order [1, 1] [1, 0] u = Inr cu \<Longrightarrow>
   get_initial_internal_state ext_first_order [1, 1] [1, 0] 0 0 (Some u)
     = Inr \<lparr>st_z = [[0]], st_dz = [[0]], st_P = [[0]],
            st_system = ([[0]], [[1]], [[1]], [[1]]), st_corr_unc = cu\<rparr>"
  by (simp add: get_initial_internal_state_def tf2ss_fir ext_first_order_sel Let_def
      solve_1x1_def lyapunov_1x1_def get_derivative_A_def array_defs)

lemma scal_single: "scal [[c]] = c"
  by (simp add: scal_def)

lemma phi_first_order:
  "phi_vec [a0, a1] [[c]] [[d]] [[dz]] [[z]] xn = [[c * dz - d * z], [- a1 * z + xn], [z]]"
  by (simp add: phi_vec_def array_defs)

lemma step_fir:
  assumes "kind \<noteq> ''diag''"
  shows "iir_step kind [1, 0] (np_zeros 3 3) ([[0]], [[1]], [[1]], [[1]]) cu (0 # U) n xn
           ([[z]], [[dz]], [[P]])
     = Inr (z + xn, cu, ([[xn]], [[- z]], [[0]]))"
proof -
  have quad: "matmul (matmul (mT [[dz - z], [xn], [z]]) (np_zeros 3 3)) [[dz - z], [xn], [z]] = [[0]]"
    by (rule quad_zero) (simp_all add: is_mat_def)
  have rest: "scal (mat_add (matmul [[1]] [[z]]) (smul xn [[1]])) = z + xn"
    "mat_add (matmul (matmul [[0]] [[P]]) (mT [[0]])) (smul 0 (np_outer [[1]] [[1]])) = [[0]]"
    "mat_add (matmul [[0]] [[dz]]) (np_zeros 0 (Suc 0) @ mT (smul (- 1) [[z]])) = [[- z]]"
    "mat_add (matmul [[0]] [[z]]) (smul xn [[1]]) = [[xn]]"
    by (simp_all add: array_defs)
  have phi: "phi_vec [1, 0] [[1]] [[1]] [[dz]] [[z]] xn = [[dz - z], [xn], [z]]"
    by (simp add: phi_first_order)
  show ?thesis
    using assms
    by (simp add: iir_step_def phi quad rest scal_single)
qed

lemma default_Uab_first_order: "default_Uab None 1 = Inr (np_zeros 3 3)"
  by (simp add: default_Uab_def)

lemma run_fir_corr:
  assumes "kind \<noteq> ''diag''"
  shows "IIRuncFilter ext_first_order [1, 1] (UxFloat 0) [1, 1] [1, 0] None None False kind
       = Inr ([1, 2], [2, 2], None)"
  using assms
  by (simp add: IIRuncFilter_unfold default_Uab_first_order pad_b_def start_state_def
      ux_vector_def init_fir[OF corr_unc_two] step_fir)

lemma run_fir_corr_array:
  assumes "kind \<noteq> ''diag''"
  shows "IIRuncFilter ext_first_order [1, 1] (UxArray [0, 0]) [1, 1] [1, 0] None None False kind
       = Inr ([1, 2], [2, 2], None)"
    and "IIRuncFilter ext_first_order [1, 1] (UxArray [0, 0]) [1, 1] [1, 0] (Some (np_zeros 3 3))
           None False kind
       = Inr ([1, 2], [2, 2], None)"
  using assms
  by (simp_all add: IIRuncFilter_unfold default_Uab_first_order default_Uab_def pad_b_def
      start_state_def ux_vector_def init_fir[OF corr_unc_two] step_fir)

lemma run_fir_corr_whole:
  assumes "kind \<noteq> ''diag''"
  shows "IIRuncFilter ext_first_order [1, 1, 1] (UxFloat 0) [1, 1] [1, 0] None None False kind
       = Inr ([1, 2, 2], [sqrt 7, sqrt 7, sqrt 7], None)"
  using assms
  by (simp add: IIRuncFilter_unfold default_Uab_first_order pad_b_def start_state_def
      ux_vector_def init_fir[OF corr_unc_three] step_fir)

lemma run_fir_corr_first:
  assumes "kind \<noteq> ''diag''"
  shows "IIRuncFilter ext_first_order [1, 1] (UxFloat 0) [1, 1] [1, 0] None None True kind
       = Inr ([1, 2], [2, 2], Some \<lparr>st_z = [[1]], st_dz = [[- 1]], st_P = [[0]],
                 st_system = ([[0]], [[1]], [[1]], [[1]]), st_corr_unc = 4\<rparr>)"
  using assms
  by (simp add: IIRuncFilter_unfold default_Uab_first_order pad_b_def start_state_def
      ux_vector_def init_fir[OF corr_unc_two] step_fir)

lemma run_fir_corr_second:
  assumes "kind \<noteq> ''diag''"
  shows "IIRuncFilter ext_first_order [1] (UxFloat 0) [1, 1] [1, 0] None
           (Some \<lparr>st_z = [[1]], st_dz = [[- 1]], st_P = [[0]],
                 st_system = ([[0]], [[1]], [[1]], [[1]]), st_corr_unc = 4\<rparr>) False kind
       = Inr ([2], [2], None)"
  using assms
  by (simp add: IIRuncFilter_unfold default_Uab_first_order pad_b_def start_state_def
      ux_vector_def step_fir)

lemma sqrt_seven: "sqrt 7 \<noteq> 2"
  using real_sqrt_eq_iff[of 7 4] by simp

text \<open>
  C4: the claim has the round trip hold for every uncertainty \<open>Ux\<close>, and the docstring
  has a float \<open>Ux\<close> be the standard deviation of white noise, \<open>kind\<close> having a meaning
  for an array \<open>Ux\<close> only. The code breaks the round trip for a float \<open>Ux\<close> with
  \<open>kind = "corr"\<close>: the float is expanded to an array of the length of the signal of the
  call, that array is handed to \<open>_get_corr_unc\<close>, and the cached \<open>corr_unc\<close> of the first
  chunk therefore differs from the one of the whole signal. For
  the filter \<open>b = [1, 1]\<close>, \<open>a = [1, 0]\<close>, the signal \<open>x = [1, 1, 1]\<close>, \<open>Ux = 0.0\<close> and the
  split index \<open>k = 2\<close> the two chunks give \<open>Uy = [2, 2, 2]\<close> (\<open>corr_unc = 4\<close>), the single
  run gives \<open>Uy = [sqrt 7, sqrt 7, sqrt 7]\<close> (\<open>corr_unc = 7\<close>); the outputs \<open>y\<close> agree.
\<close>

theorem checkpoint_roundtrip_breaks_corr_float:
  "IIRuncFilter_chunked ext_first_order (take 2 [1, 1, 1]) (UxFloat 0) (drop 2 [1, 1, 1])
       (UxFloat 0) [1, 1] [1, 0] None ''corr''
     = Inr ([1, 2, 2], [2, 2, 2], None)
   \<and> IIRuncFilter ext_first_order [1, 1, 1] (UxFloat 0) [1, 1] [1, 0] None None False ''corr''
     = Inr ([1, 2, 2], [sqrt 7, sqrt 7, sqrt 7], None)
   \<and> IIRuncFilter_chunked ext_first_order (take 2 [1, 1, 1]) (UxFloat 0) (drop 2 [1, 1, 1])
       (UxFloat 0) [1, 1] [1, 0] None ''corr''
     \<noteq> IIRuncFilter ext_first_order [1, 1, 1] (UxFloat 0) [1, 1] [1, 0] None None False ''corr''"
  by (simp add: IIRuncFilter_chunked_def run_fir_corr_whole run_fir_corr_first
      run_fir_corr_second sqrt_seven eval_nat_numeral)

text \<open>
  C5, as stated, fails for \<open>IIRuncFilter\<close>: the tag \<open>"typo"\<close> raises nothing, the call
  returns the result of the correlated model.
\<close>

theorem IIRuncFilter_unknown_kind_runs_as_corr:
  "IIRuncFilter ext_first_order [1, 1] (UxFloat 0) [1, 1] [1, 0] None None False ''typo''
     = Inr ([1, 2], [2, 2], None)"
  by (simp add: run_fir_corr)

section \<open>The noise-model tag and the length of the numerator\<close>

lemma iir_step_not_diag:
  "kind \<noteq> ''diag'' \<Longrightarrow>
   iir_step kind a Uab sys cu U n xn st = iir_step ''corr'' a Uab sys cu U n xn st"
  by (simp add: iir_step_def)

lemma iir_loop_not_diag:
  "kind \<noteq> ''diag'' \<Longrightarrow>
   iir_loop kind a Uab sys cu U n xs st = iir_loop ''corr'' a Uab sys cu U n xs st"
proof (induction xs arbitrary: n st)
  case Nil
  show ?case by simp
next
  case (Cons x xs)
  show ?case
    by (simp add: iir_step_not_diag[OF Cons.prems] Cons.IH[OF Cons.prems]
        cong: sum.case_cong prod.case_cong)
qed

lemma IIRuncFilter_not_diag:
  assumes "kind \<noteq> ''diag''"
  shows "IIRuncFilter ext x Ux b a Uab init rs kind = IIRuncFilter ext x Ux b a Uab init rs ''corr''"
proof -
  have "start_state ext init kind b' a V = start_state ext init ''corr'' b' a V" for b' V
    using assms by (simp add: start_state_def)
  then show ?thesis
    by (simp add: IIRuncFilter_unfold iir_loop_not_diag[OF assms]
        cong: sum.case_cong prod.case_cong if_cong)
qed

text \<open>
  C5, amended: \<open>IIRuncFilter\<close> does not validate the tag, every \<open>kind\<close> other than
  \<open>"diag"\<close> is handled as \<open>"corr"\<close>; \<open>FIRuncFilter\<close> with an array \<open>sigma_noise\<close> and a
  tag that is neither \<open>"diag"\<close> nor \<open>"corr"\<close> raises \<open>ValueError\<close> before anything else is
  computed; \<open>FIRuncFilter\<close> with a float \<open>sigma_noise\<close> does not look at the tag there and
  goes on with \<open>sigma2 = sigma_noise\<^sup>2\<close>.
\<close>

theorem noise_model_tag_handling:
  "(kind \<noteq> ''diag'' \<longrightarrow>
      IIRuncFilter ext x Ux b a Uab init_internal_state return_state kind
    = IIRuncFilter ext x Ux b a Uab init_internal_state return_state ''corr'')
   \<and> (kind \<noteq> ''diag'' \<and> kind \<noteq> ''corr'' \<longrightarrow>
      FIRuncFilter rest y (SigmaArray v) theta Utheta shift blow kind = Inl ValueError)
   \<and> FIRuncFilter rest y (SigmaFloat s) theta Utheta shift blow kind
    = rest y (Sigma2Float (s * s)) theta
        (case Utheta of Some U \<Rightarrow> U | None \<Rightarrow> np_zeros (length theta) (length theta))
        shift blow kind"
  using IIRuncFilter_not_diag[of kind]
  by (simp add: FIRuncFilter_def FIR_sigma2_def Let_def)

theorem noise_model_tag_handling_witness:
  "''typo'' \<noteq> ''diag'' \<and> ''typo'' \<noteq> ''corr''
   \<and> IIRuncFilter ext_first_order [1, 1] (UxFloat 0) [1, 1] [1, 0] None None False ''typo''
     = IIRuncFilter ext_first_order [1, 1] (UxFloat 0) [1, 1] [1, 0] None None False ''corr''
   \<and> FIRuncFilter (\<lambda>y sigma2 theta Utheta shift blow kind. Inr (y, y)) [1, 2] (SigmaArray [1, 1])
        [1] None 0 None ''typo'' = Inl ValueError
   \<and> FIRuncFilter (\<lambda>y sigma2 theta Utheta shift blow kind. Inr (y, y)) [1, 2] (SigmaFloat 1)
        [1] None 0 None ''typo'' = Inr ([1, 2], [1, 2])"
  using noise_model_tag_handling[of "''typo''" ext_first_order "[1, 1]" "UxFloat 0" "[1, 1]"
      "[1, 0]" None None False "\<lambda>y sigma2 theta Utheta shift blow kind. Inr (y, y)" "[1, 2]"
      "[1, 1]" "[1]" None 0 None 1]
  by simp

lemma pad_b_short:
  "length b < length a \<Longrightarrow> pad_b b a = Inr (b @ replicate (length a - length b) 0)"
  by (simp add: pad_b_def)

lemma pad_b_same: "length b = length a \<Longrightarrow> pad_b b a = Inr b"
  by (simp add: pad_b_def)

text \<open>
  C7, amended: for every call of \<open>IIRuncFilter\<close> in which \<open>len(b) < len(a)\<close>, the numerator
  is zero-padded to the length of \<open>a\<close> before the state-space realization is constructed,
  and the call is the call with the padded numerator.
\<close>

theorem IIRuncFilter_pads_short_numerator:
  assumes "length b < length a"
  shows "pad_b b a = Inr (b @ replicate (length a - length b) 0)
       \<and> IIRuncFilter ext x Ux b a Uab init_internal_state return_state kind
         = IIRuncFilter ext x Ux (b @ replicate (length a - length b) 0) a Uab
             init_internal_state return_state kind"
proof -
  have "pad_b (b @ replicate (length a - length b) 0) a = Inr (b @ replicate (length a - length b) 0)"
    using assms by (intro pad_b_same) simp
  then show ?thesis
    by (simp add: IIRuncFilter_unfold pad_b_short[OF assms] cong: sum.case_cong prod.case_cong)
qed

theorem IIRuncFilter_pads_short_numerator_witness:
  "length [1/2 :: real] < length [1, - (1/2) :: real]
   \<and> pad_b [1/2] [1, - (1/2)] = Inr [1/2, 0]
   \<and> IIRuncFilter ext_first_order [1, 2] (UxFloat 1) [1/2] [1, - (1/2)] None None False ''diag''
     = IIRuncFilter ext_first_order [1, 2] (UxFloat 1) [1/2, 0] [1, - (1/2)] None None False ''diag''"
  using IIRuncFilter_pads_short_numerator[of "[1/2]" "[1, - (1/2)]" ext_first_order "[1, 2]"
      "UxFloat 1" None None False "''diag''"]
  by simp

text \<open>
  C7, as stated (every call with \<open>len(b) != len(a)\<close>), fails for a numerator longer than
  the denominator: \<open>np.zeros((len(a) - len(b),))\<close> has a negative size and raises
  \<open>ValueError\<close>.
\<close>

theorem IIRuncFilter_long_numerator_raises:
  "IIRuncFilter ext_first_order [1, 2] (UxFloat 1) [1, 2, 3] [1, 1/2] None None False ''diag''
     = Inl ValueError"
  by (simp add: IIRuncFilter_unfold default_Uab_first_order pad_b_def)

section \<open>A filter without uncertainty\<close>

lemma np_zeros_nth: "i < n \<Longrightarrow> j < m \<Longrightarrow> np_zeros n m ! i ! j = 0"
  by (simp add: np_zeros_def)

lemma spec_Uy_zero:
  "spec_Uy p phi (np_zeros (2 * p + 1) (2 * p + 1)) cT (np_zeros p p) b0 0 = 0"
proof -
  have "(\<Sum>i<2 * p + 1. \<Sum>j<2 * p + 1. phi i * np_zeros (2 * p + 1) (2 * p + 1) ! i ! j * phi j) = 0"
    by (intro sum.neutral ballI) (simp add: np_zeros_nth)
  moreover have "(\<Sum>i<p. \<Sum>j<p. cT ! 0 ! i * np_zeros p p ! i ! j * cT ! 0 ! j) = 0"
    by (intro sum.neutral ballI) (simp add: np_zeros_nth)
  ultimately show ?thesis by (simp add: spec_Uy_def)
qed

lemma spec_P_zero: "spec_P p A (np_zeros p p) bs 0 = np_zeros p p"
proof -
  have "(\<Sum>k<p. \<Sum>l<p. A ! i ! k * np_zeros p p ! k ! l * A ! j ! l) = 0" for i j
    by (intro sum.neutral ballI) (simp add: np_zeros_nth)
  then show ?thesis by (simp add: spec_P_def np_zeros_mk)
qed

lemma zero_uncertainty_loop:
  assumes "0 < p" and "length a = Suc p"
    and "is_mat p p A" and "is_mat p 1 bs" and "is_mat 1 p cT"
    and "list_all (\<lambda>u. u = 0) Ux"
    and U: "Uab = np_zeros (2 * p + 1) (2 * p + 1)"
    and "is_mat p 1 z" and "is_mat p p dz"
    and "n + length xs \<le> length Ux"
  shows "\<exists>ys st'. iir_loop ''diag'' a Uab (A, bs, cT, [[b0]]) cu Ux n xs (z, dz, np_zeros p p)
                   = Inr (ys, replicate (length xs) 0, st')"
  using assms(8-)
proof (induction xs arbitrary: n z dz)
  case Nil
  show ?case by simp
next
  case (Cons xn xs)
  from Cons.prems have n: "n < length Ux" and n': "Suc n + length xs \<le> length Ux" by simp_all
  have u0: "Ux ! n = 0" using assms(6) n by (simp add: list_all_length)
  have isU: "is_mat (2 * p + 1) (2 * p + 1) Uab" unfolding U by (rule is_mat_np_zeros)
  have uy: "spec_Uy p phi Uab cT (np_zeros p p) b0 0 = 0" for phi
    unfolding U by (rule spec_Uy_zero)
  have step: "iir_step ''diag'' a Uab (A, bs, cT, [[b0]]) cu Ux n xn (z, dz, np_zeros p p)
       = Inr (spec_y p cT b0 z xn, 0, (spec_z p A z bs xn, spec_dz p A dz z, np_zeros p p))"
    unfolding iir_step_diag[OF assms(1-5) Cons.prems(1,2) is_mat_np_zeros isU n]
      u0 uy spec_P_zero ..
  obtain ys st' where
    "iir_loop ''diag'' a Uab (A, bs, cT, [[b0]]) cu Ux (Suc n) xs
       (spec_z p A z bs xn, spec_dz p A dz z, np_zeros p p)
     = Inr (ys, replicate (length xs) 0, st')"
    using Cons.IH[OF spec_shapes(1) spec_shapes(2) n'] by blast
  then show ?case by (cases st') (simp add: step)
qed

lemma init_system:
  assumes "get_initial_internal_state ext b a x0 U0 Ux = Inr st"
  shows "tf2ss b a = Inr (st_system st)"
  using assms
  by (auto simp: get_initial_internal_state_def Let_def split: sum.splits prod.splits)

lemma is_mat_companion: "is_mat (length a - 1) (length a - 1) (companion a)"
  by (simp add: companion_def Let_def is_mat_iff)

lemma is_mat_unit_last: "is_mat p 1 (unit_last p)"
  by (simp add: unit_last_def is_mat_iff)

lemma is_mat_output_row: "is_mat 1 (length a - 1) (output_row b a)"
  by (simp add: output_row_def Let_def is_mat_iff)

lemma pad_b_le:
  "length b \<le> length a \<Longrightarrow> pad_b b a = Inr (b @ replicate (length a - length b) 0)"
  by (simp add: pad_b_def)

text \<open>
  The uncorrelated noise model propagates no uncertainty from none: for every input
  signal \<open>x\<close>, calling \<open>IIRuncFilter\<close> with \<open>kind = "diag"\<close> without a supplied internal
  state, for a filter of order \<open>p \<ge> 1\<close> with \<open>len(b) \<le> len(a)\<close>, with \<open>Uab\<close> absent or
  all-zero and \<open>Ux\<close> all-zero, returns \<open>Uy = 0\<close> at every sample, provided the initial-state
  solver succeeds with arrays of the shapes of the filter and a zero covariance (the
  solution of the Lyapunov equation for \<open>U0 = 0\<close>).
\<close>

theorem IIRuncFilter_zero_uncertainty:
  assumes p: "0 < p" and a: "length a = Suc p" and b: "length b \<le> length a"
    and Uab: "Uab = None \<or> Uab = Some (np_zeros (2 * p + 1) (2 * p + 1))"
    and len: "length x \<le> length (ux_vector Ux x)"
    and zero: "list_all (\<lambda>u. u = 0) (ux_vector Ux x)"
    and init: "get_initial_internal_state ext (b @ replicate (length a - length b) 0) a 0 0 None
                 = Inr st"
    and z: "is_mat p 1 (st_z st)" and dz: "is_mat p p (st_dz st)"
    and P: "st_P st = np_zeros p p"
  shows "\<exists>y. IIRuncFilter ext x Ux b a Uab None False ''diag''
             = Inr (y, replicate (length x) 0, None)"
proof -
  let ?b = "b @ replicate (length a - length b) 0"
  have lb: "length ?b = length a" using b by simp
  have la: "2 \<le> length a" using p a by simp
  have pa: "length a - 1 = p" using a by simp
  have sys: "st_system st = (companion a, unit_last p, output_row ?b a, [[?b ! 0]])"
    using init_system[OF init] tf2ss_eq[OF lb la] unfolding pa by simp
  have U: "default_Uab Uab (int (length a) - 1) = Inr (np_zeros (2 * p + 1) (2 * p + 1))"
    using Uab a by (auto simp: default_Uab_def nat_add_distrib nat_mult_distrib)
  have start: "start_state ext None ''diag'' ?b a (ux_vector Ux x) = Inr st"
    using init by (simp add: start_state_def)
  obtain ys st' where loop:
    "iir_loop ''diag'' a (np_zeros (2 * p + 1) (2 * p + 1))
        (companion a, unit_last p, output_row ?b a, [[?b ! 0]]) (st_corr_unc st)
        (ux_vector Ux x) 0 x (st_z st, st_dz st, np_zeros p p)
     = Inr (ys, replicate (length x) 0, st')"
    using zero_uncertainty_loop[OF p a is_mat_companion[of a, unfolded pa] is_mat_unit_last
        is_mat_output_row[of a ?b, unfolded pa] zero refl z dz, of 0 x "?b ! 0" "st_corr_unc st"]
      len by auto
  have "IIRuncFilter ext x Ux b a Uab None False ''diag''
      = Inr (ys, map (\<lambda>u. sqrt \<bar>u\<bar>) (replicate (length x) 0), None)"
  proof -
    have chk: "\<not> 2 * (int (length a) - 1) + 1 < 0" using a by simp
    show ?thesis
      using chk loop U
      by (simp add: IIRuncFilter_unfold pad_b_le[OF b] start sys P split: prod.splits)
  qed
  then show ?thesis by simp
qed

theorem IIRuncFilter_zero_uncertainty_witness:
  "\<exists>y. IIRuncFilter ext_first_order [1, 2] (UxFloat 0) [1/2, 0] [1, - (1/2)] None None False ''diag''
        = Inr (y, [0, 0], None)"
proof -
  let ?st = "\<lparr>st_z = [[0]], st_dz = [[0]], st_P = [[0]],
              st_system = ([[1/2]], [[1]], [[1/4]], [[1/2]]), st_corr_unc = 0\<rparr>"
  have h1: "(0::nat) < 1" and h2: "length [1, - (1/2) :: real] = Suc 1"
    and h3: "length [1/2, 0 :: real] \<le> length [1, - (1/2) :: real]"
    and h4: "None = None \<or> None = Some (np_zeros (2 * 1 + 1) (2 * 1 + 1))"
    and h5: "length [1, 2 :: real] \<le> length (ux_vector (UxFloat 0) [1, 2])"
    and h6: "list_all (\<lambda>u. u = 0) (ux_vector (UxFloat 0) [1, 2])"
    and h7: "get_initial_internal_state ext_first_order
               ([1/2, 0] @ replicate (length [1, - (1/2) :: real] - length [1/2, 0 :: real]) 0)
               [1, - (1/2)] 0 0 None = Inr ?st"
    and h8: "is_mat 1 1 (st_z ?st)" "is_mat 1 1 (st_dz ?st)"
    and h9: "st_P ?st = np_zeros 1 1"
    by (simp_all add: ux_vector_def init_lowpass is_mat_def np_zeros_def)
  show ?thesis
    using IIRuncFilter_zero_uncertainty[OF h1 h2 h3 h4 h5 h6 h7 h8 h9]
    by (simp add: eval_nat_numeral)
qed

text \<open>
  C8: the claim has a filter without uncertainty return \<open>Uy = 0\<close>. In the correlated
  noise model the code does not: \<open>_get_corr_unc\<close> computes
  \<open>np.sum(toeplitz(Ux) + toeplitz(h_theta))\<close>, the sum of the two matrices, where its
  comment on equation (20) describes a sum whose terms vanish with \<open>h_theta\<close> and with
  \<open>Ux\<close>; with \<open>Ux = 0\<close> the entries of the impulse response alone are left, and they are
  added to every \<open>Uy[n]\<close>. For the filter \<open>b = [1, 1]\<close>, \<open>a = [1, 0]\<close>, the signal
  \<open>x = [1, 1]\<close>, the autocovariance \<open>Ux = [0, 0]\<close> and \<open>Uab\<close> absent or all-zero,
  \<open>corr_unc = 4\<close> and the call returns \<open>Uy = [2, 2]\<close>.
\<close>

theorem zero_uncertainty_corr_not_zero:
  "get_corr_unc ext_first_order [1, 1] [1, 0] [0, 0] = Inr 4
   \<and> IIRuncFilter ext_first_order [1, 1] (UxArray [0, 0]) [1, 1] [1, 0] None None False ''corr''
     = Inr ([1, 2], [2, 2], None)
   \<and> IIRuncFilter ext_first_order [1, 1] (UxArray [0, 0]) [1, 1] [1, 0] (Some (np_zeros 3 3))
       None False ''corr''
     = Inr ([1, 2], [2, 2], None)"
  by (simp add: corr_unc_two run_fir_corr_array)

section \<open>The equations of the initial state\<close>

lemma tf2ss_shapes:
  assumes "tf2ss b a = Inr (A, B, C, D)"
  shows "2 \<le> length a \<and> A = companion a \<and> B = unit_last (length a - 1)"
proof -
  have la: "2 \<le> length a"
  proof (rule ccontr)
    assume "\<not> 2 \<le> length a"
    then have "int (length a) - 1 - 1 < 0" by simp
    then have "tf2ss b a = Inl ValueError" by (simp add: tf2ss_def np_eye_def Let_def)
    with assms show False by simp
  qed
  have p1: "int (length a - 1) - 1 = int (length a - 2)"
    and p0: "int (length a) - 1 = int (length a - 1)"
    using la by auto
  have eye: "np_eye (int (length a) - 1 - 1) (int (length a) - 1) 1
           = Inr (eye_mat (length a - 2) (length a - 1) 1)"
    by (simp only: p1 p0 np_eye_nat)
  have n: "nat (int (length a) - 1) = length a - 1" by simp
  have B: "(np_zeros (length a - 1) 1)[length a - 1 - 1 := [1]] = unit_last (length a - 1)"
    using la by (intro tf2ss_B) simp
  from assms have "A = eye_mat (length a - 2) (length a - 1) 1 @ [neg_vec (rev (drop 1 a))]"
    and "B = (np_zeros (length a - 1) 1)[length a - 1 - 1 := [1]]"
    unfolding tf2ss_def Let_def eye n
    by (auto split: list.splits sum.splits)
  then show ?thesis using la tf2ss_A[OF la] B by simp
qed

lemma matmul_smul:
  assumes "is_mat n k M" and "is_mat k m S" and "0 < k"
  shows "matmul M (smul c S) = smul c (matmul M S)"
proof -
  have "matmul M (smul c S)
      = matmul (mk_mat n k (\<lambda>i j. M ! i ! j)) (smul c (mk_mat k m (\<lambda>i j. S ! i ! j)))"
    by (simp only: mat_eq_mk_mat[OF assms(1), symmetric] mat_eq_mk_mat[OF assms(2), symmetric])
  also have "\<dots> = mk_mat n m (\<lambda>i j. \<Sum>l<k. M ! i ! l * (c * S ! l ! j))"
    using assms(3) by (simp add: smul_mk_mk matmul_mk_mk)
  also have "\<dots> = smul c (mk_mat n m (\<lambda>i j. \<Sum>l<k. M ! i ! l * S ! l ! j))"
    unfolding smul_mk_mk
    by (rule mk_mat_cong) (simp add: sum_distrib_left mult.left_commute)
  also have "\<dots> = smul c (matmul (mk_mat n k (\<lambda>i j. M ! i ! j)) (mk_mat k m (\<lambda>i j. S ! i ! j)))"
    using assms(3) by (simp add: matmul_mk_mk)
  also have "\<dots> = smul c (matmul M S)"
    by (simp only: mat_eq_mk_mat[OF assms(1), symmetric] mat_eq_mk_mat[OF assms(2), symmetric])
  finally show ?thesis .
qed

lemma np_outer_column:
  assumes "is_mat p 1 B"
  shows "np_outer B B = matmul B (mT B)"
proof (cases "p = 0")
  case True
  then have "B = []" using assms by (simp add: is_mat_iff)
  then show ?thesis by (simp add: np_outer_def matmul_def nrows_def)
next
  case False
  then have p: "0 < p" by simp
  have "matmul B (mT B)
      = matmul (mk_mat p 1 (\<lambda>i j. B ! i ! j)) (mT (mk_mat p 1 (\<lambda>i j. B ! i ! j)))"
    by (simp only: mat_eq_mk_mat[OF assms, symmetric])
  also have "\<dots> = mk_mat p p (\<lambda>i j. B ! i ! 0 * B ! j ! 0)"
    using p by (simp add: mT_mk_mk matmul_mk_mk)
  also have "\<dots> = np_outer B B"
    by (rule np_outer_mk[OF assms assms, symmetric])
  finally show ?thesis by simp
qed

lemma get_derivative_A_mk:
  "get_derivative_A p = map (\<lambda>k. mk_mat p p (dA_entry p k)) [0..<p]"
proof -
  have "(np_zeros p p)[p - 1 := (replicate p 0)[p - (k + 1) := - 1]] = mk_mat p p (dA_entry p k)"
    if "k < p" for k
    unfolding mk_mat_def np_zeros_def
  proof (intro nth_equalityI)
    show "length ((replicate p (replicate p 0))[p - 1 := (replicate p 0)[p - (k + 1) := - 1]])
        = length (map (\<lambda>i. map (dA_entry p k i) [0..<p]) [0..<p])"
      by simp
  next
    fix i assume "i < length ((replicate p (replicate p 0))[p - 1 := (replicate p 0)[p - (k + 1) := - 1]])"
    then have i: "i < p" by simp
    show "length ((replicate p (replicate p 0))[p - 1 := (replicate p 0)[p - (k + 1) := - 1]] ! i)
        = length (map (\<lambda>i. map (dA_entry p k i) [0..<p]) [0..<p] ! i)"
      using i by (simp add: nth_list_update)
    fix j assume "j < length ((replicate p (replicate p 0))[p - 1 := (replicate p 0)[p - (k + 1) := - 1]] ! i)"
    then have j: "j < p" using i by (simp add: nth_list_update split: if_splits)
    show "(replicate p (replicate p 0))[p - 1 := (replicate p 0)[p - (k + 1) := - 1]] ! i ! j
        = map (\<lambda>i. map (dA_entry p k i) [0..<p]) [0..<p] ! i ! j"
      using i j that by (auto simp: nth_list_update dA_entry_def)
  qed
  then show ?thesis by (simp add: get_derivative_A_def)
qed

lemma mk_mat_column_row: "i < p \<Longrightarrow> mk_mat p (Suc 0) f ! i = [f i 0]"
  by (simp add: mk_mat_def)

lemma np_hstack_nonempty:
  "ms \<noteq> [] \<Longrightarrow> np_hstack ms = map (\<lambda>i. concat (map (\<lambda>q. q ! i) ms)) [0..<length (hd ms)]"
  by (cases ms) (simp_all add: np_hstack_def)

lemma hstack_dA:
  assumes "0 < p" and "is_mat p 1 z"
  shows "np_hstack (map (\<lambda>dAk. matmul dAk z) (get_derivative_A p)) = dA_times p z"
proof -
  let ?g = "\<lambda>k. mk_mat p 1 (\<lambda>i j. \<Sum>l<p. dA_entry p k i l * z ! l ! j)"
  have prod: "matmul (mk_mat p p (dA_entry p k)) z = ?g k" for k
  proof -
    have "matmul (mk_mat p p (dA_entry p k)) z
        = matmul (mk_mat p p (dA_entry p k)) (mk_mat p 1 (\<lambda>i j. z ! i ! j))"
      by (simp only: mat_eq_mk_mat[OF assms(2), symmetric])
    also have "\<dots> = ?g k" using assms(1) by (simp add: matmul_mk_mk)
    finally show ?thesis .
  qed
  have ms: "map (\<lambda>dAk. matmul dAk z) (get_derivative_A p) = map ?g [0..<p]"
    by (simp add: get_derivative_A_mk prod)
  have ne: "map ?g [0..<p] \<noteq> []" and hd: "length (hd (map ?g [0..<p])) = p"
    using assms(1) by (simp_all add: hd_map)
  have "np_hstack (map ?g [0..<p]) = map (\<lambda>i. concat (map (\<lambda>q. q ! i) (map ?g [0..<p]))) [0..<p]"
    using np_hstack_nonempty[OF ne] unfolding hd .
  also have "\<dots> = map (\<lambda>i. map (\<lambda>k. \<Sum>l<p. dA_entry p k i l * z ! l ! 0) [0..<p]) [0..<p]"
  proof (rule map_cong[OF refl])
    fix i assume "i \<in> set [0..<p]"
    then have i: "i < p" by simp
    have "concat (map (\<lambda>q. q ! i) (map ?g [0..<p]))
        = concat (map (\<lambda>k. [\<Sum>l<p. dA_entry p k i l * z ! l ! 0]) [0..<p])"
      by (simp add: mk_mat_column_row[OF i] comp_def)
    then show "concat (map (\<lambda>q. q ! i) (map ?g [0..<p]))
        = map (\<lambda>k. \<Sum>l<p. dA_entry p k i l * z ! l ! 0) [0..<p]"
      by (simp add: concat_map_singleton)
  qed
  finally show ?thesis by (simp add: ms dA_times_def mk_mat_def)
qed

lemma is_mat_smul: "is_mat n m M \<Longrightarrow> is_mat n m (smul c M)"
  by (simp add: smul_mk is_mat_mk_mat)

lemma is_mat_mat_sub: "is_mat n m M \<Longrightarrow> is_mat n m N \<Longrightarrow> is_mat n m (mat_sub M N)"
  by (simp add: mat_sub_mk is_mat_mk_mat)

lemma is_mat_eye: "is_mat n m (eye_mat n m k)"
  by (simp add: eye_mat_def is_mat_iff)

text \<open>
  C10, amended: for every filter \<open>(b, a)\<close> that \<open>_tf2ss\<close> converts (order at least one) and
  every operating point \<open>(x0, U0)\<close>, when the three linear solves succeed, each returning a
  solution of the system passed to it, the initial-state solver returns \<open>z\<close> with
  \<open>(I - A) z = B x0\<close>, \<open>dz\<close> with \<open>(I - A) dz = dA z\<close>, where \<open>dA\<close> is the tensor of the partial
  derivatives of \<open>A\<close> with respect to the denominator coefficients, and \<open>P\<close> with
  \<open>P = A P A\<^sup>T + U0\<^sup>2 B B\<^sup>T\<close>.
\<close>

theorem initial_state_equations:
  assumes tf: "tf2ss b a = Inr (A, B, C, D)"
    and p: "p = length A" and I: "IminusA = mat_sub (eye_mat p p 0) A"
    and s: "solve ext IminusA B = Inr s" and s_shape: "is_mat p 1 s"
    and s_eq: "matmul IminusA s = B"
    and dz: "solve ext IminusA (np_hstack (map (\<lambda>dAk. matmul dAk (smul x0 s))
                                 (get_derivative_A p))) = Inr dzs"
    and dz_eq: "matmul IminusA dzs
              = np_hstack (map (\<lambda>dAk. matmul dAk (smul x0 s)) (get_derivative_A p))"
    and P: "solve_discrete_lyapunov ext A (smul (U0 * U0) (np_outer B B)) = Inr Ps"
    and P_eq: "Ps = mat_add (matmul (matmul A Ps) (mT A)) (smul (U0 * U0) (np_outer B B))"
    and cu: "(case Ux of Some u \<Rightarrow> get_corr_unc ext b a u | None \<Rightarrow> Inr 0) = Inr cu"
  shows "get_initial_internal_state ext b a x0 U0 Ux
           = Inr \<lparr>st_z = smul x0 s, st_dz = dzs, st_P = Ps, st_system = (A, B, C, D),
                  st_corr_unc = cu\<rparr>
       \<and> matmul IminusA (smul x0 s) = smul x0 B
       \<and> matmul IminusA dzs = dA_times p (smul x0 s)
       \<and> Ps = mat_add (matmul (matmul A Ps) (mT A)) (smul (U0 * U0) (matmul B (mT B)))"
proof -
  from tf2ss_shapes[OF tf] have la: "2 \<le> length a" and A: "A = companion a"
    and B: "B = unit_last (length a - 1)" by simp_all
  have pa: "p = length a - 1" using p A is_mat_length[OF is_mat_companion] by simp
  have p0: "0 < p" using la pa by simp
  have isA: "is_mat p p A" unfolding A pa by (rule is_mat_companion)
  have isB: "is_mat p 1 B" unfolding B pa by (rule is_mat_unit_last)
  have isI: "is_mat p p IminusA" unfolding I by (intro is_mat_mat_sub is_mat_eye isA)
  have run: "get_initial_internal_state ext b a x0 U0 Ux
           = Inr \<lparr>st_z = smul x0 s, st_dz = dzs, st_P = Ps, st_system = (A, B, C, D),
                  st_corr_unc = cu\<rparr>"
    using s dz P cu unfolding I p
    by (simp add: get_initial_internal_state_def tf Let_def)
  have z: "matmul IminusA (smul x0 s) = smul x0 B"
    using matmul_smul[OF isI s_shape p0] s_eq by simp
  have dzs: "matmul IminusA dzs = dA_times p (smul x0 s)"
    using dz_eq hstack_dA[OF p0 is_mat_smul[OF s_shape]] by simp
  have Ps: "Ps = mat_add (matmul (matmul A Ps) (mT A)) (smul (U0 * U0) (matmul B (mT B)))"
    using P_eq np_outer_column[OF isB] by simp
  show ?thesis using run z dzs Ps by simp
qed

lemma companion_mk:
  "companion a = mk_mat (length a - 1) (length a - 1)
     (\<lambda>i j. if Suc i < length a - 1 then (if j = Suc i then 1 else 0)
             else - (a ! (length a - 1 - j)))"
  by (simp add: companion_def mk_mat_def Let_def)

text \<open>
  \<open>dA_entry\<close> is indeed the derivative of \<open>A\<close>: the companion matrix is affine in every
  denominator coefficient, with the slope \<open>dA_entry p k\<close> in \<open>a[k+1]\<close>.
\<close>

lemma companion_derivative:
  assumes "length a = Suc p" and "k < p"
  shows "companion (a[Suc k := a ! Suc k + t])
       = mat_add (companion a) (smul t (mk_mat p p (dA_entry p k)))"
proof -
  have "companion (a[Suc k := a ! Suc k + t])
      = mk_mat p p (\<lambda>i j. (if Suc i < p then (if j = Suc i then 1 else 0) else - (a ! (p - j)))
                           + t * dA_entry p k i j)"
    unfolding companion_mk using assms
    by (intro mk_mat_cong') (auto simp: dA_entry_def nth_list_update)
  also have "\<dots> = mat_add (companion a) (smul t (mk_mat p p (dA_entry p k)))"
    unfolding companion_mk using assms
    by (simp add: smul_mk_mk mat_add_mk_mk, intro mk_mat_cong', auto)
  finally show ?thesis .
qed

lemma tf2ss_integrator: "tf2ss [1, 0] [1, - 1] = Inr ([[1]], [[1]], [[1]], [[1]])"
  by (simp add: tf2ss_def np_eye_def np_sub_def array_defs)

text \<open>
  C10, as stated (every filter and operating point), fails when \<open>A\<close> has the eigenvalue
  one: for \<open>b = [1, 0]\<close>, \<open>a = [1, -1]\<close> the matrix \<open>I - A\<close> is zero and the first solve raises
  \<open>LinAlgError\<close>; nothing is returned.
\<close>

theorem initial_state_singular_raises:
  "get_initial_internal_state ext_first_order [1, 0] [1, - 1] 1 1 None = Inl LinAlgError"
  by (simp add: get_initial_internal_state_def tf2ss_integrator ext_first_order_sel Let_def
      solve_1x1_def array_defs)

theorem initial_state_equations_witness:
  "get_initial_internal_state ext_first_order [1/2, 0] [1, - (1/2)] 1 1 None
     = Inr \<lparr>st_z = [[2]], st_dz = [[- 4]], st_P = [[4/3]],
            st_system = ([[1/2]], [[1]], [[1/4]], [[1/2]]), st_corr_unc = 0\<rparr>
   \<and> matmul [[1/2]] [[2]] = [[1]]
   \<and> matmul [[1/2]] [[- 4]] = dA_times 1 [[2]]
   \<and> [[4/3]] = mat_add (matmul (matmul [[1/2]] [[4/3]]) (mT [[1/2]])) (matmul [[1]] (mT [[1]]))"
proof -
  have rhs: "np_hstack (map (\<lambda>dAk. matmul dAk (smul 1 [[2]])) (get_derivative_A 1)) = [[- 2]]"
    by (simp add: get_derivative_A_def array_defs)
  have h1: "tf2ss [1/2, 0] [1, - (1/2)] = Inr ([[1/2]], [[1]], [[1/4]], [[1/2]])"
    by (rule tf2ss_lowpass)
  have h2: "(1::nat) = length [[1/2 :: real]]" by simp
  have h3: "[[1/2]] = mat_sub (eye_mat 1 1 0) [[1/2]]" by (simp add: array_defs)
  have h4: "solve ext_first_order [[1/2]] [[1]] = Inr [[2]]"
    by (simp add: ext_first_order_sel solve_1x1_def)
  have h5: "is_mat 1 1 [[2]]" by (simp add: is_mat_def)
  have h6: "matmul [[1/2]] [[2]] = [[1]]" by (simp add: array_defs)
  have h7: "solve ext_first_order [[1/2]]
              (np_hstack (map (\<lambda>dAk. matmul dAk (smul 1 [[2]])) (get_derivative_A 1)))
            = Inr [[- 4]]"
    unfolding rhs by (simp add: ext_first_order_sel solve_1x1_def)
  have h8: "matmul [[1/2]] [[- 4]]
          = np_hstack (map (\<lambda>dAk. matmul dAk (smul 1 [[2]])) (get_derivative_A 1))"
    unfolding rhs by (simp add: array_defs)
  have h9: "solve_discrete_lyapunov ext_first_order [[1/2]] (smul (1 * 1) (np_outer [[1]] [[1]]))
          = Inr [[4/3]]"
    by (simp add: ext_first_order_sel lyapunov_1x1_def array_defs)
  have h10: "[[4/3]] = mat_add (matmul (matmul [[1/2]] [[4/3]]) (mT [[1/2]]))
                          (smul (1 * 1) (np_outer [[1]] [[1]]))"
    by (simp add: array_defs)
  have h11: "(case None of Some u \<Rightarrow> get_corr_unc ext_first_order [1/2, 0] [1, - (1/2)] u
                         | None \<Rightarrow> Inr 0) = Inr 0"
    by simp
  have "(*) (1::real) = (\<lambda>x. x)" by auto
  then have sm: "smul 1 M = M" for M by (simp add: smul_def)
  show ?thesis
    using initial_state_equations[OF h1 h2 h3 h4 h5 h6 h7 h8 h9 h10 h11]
    by (simp add: sm)
qed

section \<open>Properties of the least-squares fit\<close>

lemma stab_loop_exit:
  "\<not> (unstable \<and> current_stab_iter < max_stab_iter) \<Longrightarrow>
   stab_loop ext Hvals w E Na Nb invert Fs max_stab_iter b a tau unstable current_stab_iter
     = (b, a, tau, unstable, current_stab_iter)"
  by (subst stab_loop.simps) auto

lemma LSIIR_fit_run:
  assumes "truth_value UHvals = Inr True"
    and "is_mat (2 * length Hvals) (2 * length Hvals) (cov_rows UHvals)"
  shows "LSIIR ext Hvals Nb Na f Fs tau justFit verbose max_stab_iter invert UHvals mc_runs =
     (let ba = fitIIR ext Hvals tau (omega f Fs) (design_matrix (omega f Fs) Nb Na) Na Nb invert
      in if justFit then Inr (fst ba, snd ba, 0)
         else (case stab_loop ext Hvals (omega f Fs) (design_matrix (omega f Fs) Nb Na) Na Nb
                      invert Fs max_stab_iter (fst ba) (snd ba) tau
                      (\<not> check_stability ext (snd ba)) 1 of
                 (b, a, tau', unstable', current_stab_iter) \<Rightarrow> Inr (b, a, tau')))"
  using assms by (simp add: LSIIR_def Let_def)

lemma exp_m_i_pi: "exp (- (\<i> * complex_of_real pi)) = - 1"
proof -
  have "exp (- (\<i> * complex_of_real pi)) = inverse (exp (complex_of_real pi * \<i>))"
    by (simp add: exp_minus mult.commute)
  then show ?thesis by simp
qed

lemma upt2: "[0..<2] = [0, 1]" by (simp add: upt_rec)

lemma fit_gain:
  "fitIIR env_small [1] tau (omega [0] 1) (design_matrix (omega [0] 1) 0 0) 0 0 False = ([1], [1])"
  by (simp add: fitIIR_def fit_Htau_def fit_D_def fit_Tmp1_def fit_Tmp2_def omega_def
      design_matrix_def env_small_def lstsq_small_def)

lemma om1: "omega [0, 1/2] 1 = [0, pi]"
  by (simp add: omega_def)

lemma dm1: "design_matrix [0, pi] 0 (Suc 0) = [[1, 1], [1, - 1]]"
  by (simp add: design_matrix_def upt_rec exp_m_i_pi)

lemma h1: "fit_Htau [- 1, 1/3] 0 [0, pi] False = [- 1, 1/3]"
  by (simp add: fit_Htau_def)

lemma d1: "fit_D [- 1, 1/3] [[1, 1], [1, - 1]] (Suc 0) 0 = [[- 1, - 1], [- (1/3), - 1]]"
  by (simp add: fit_D_def)

lemma t1: "fit_Tmp1 [[- 1, - 1], [- (1/3), - 1]] = [[10/9, 4/3], [4/3, 2]]"
  by (simp add: fit_Tmp1_def upt2)

lemma t2: "fit_Tmp2 [[- 1, - 1], [- (1/3), - 1]] [- 1, 1/3] = [- (8/9), - (2/3)]"
  by (simp add: fit_Tmp2_def upt2)

lemma l1: "lstsq_small [[10/9, 4/3], [4/3, 2]] [- (8/9), - (2/3)] = [- 2, 1]"
  by (simp add: lstsq_small_def)

lemma fit_pole_at_two:
  "fitIIR env_small [- 1, 1/3] 0 (omega [0, 1/2] 1) (design_matrix (omega [0, 1/2] 1) 0 (Suc 0))
       (Suc 0) 0 False
     = ([1], [1, - 2])"
  by (simp add: fitIIR_def om1 dm1 h1 d1 t1 t2 env_small_def l1)

lemma roots_pole_at_two: "np_roots env_small [1, - 2] = [2]"
  by (simp add: env_small_def roots_small_def)

text \<open>
  C2: the claim promises a triple \<open>(b, a, tau)\<close> for every valid call, with or without a
  covariance \<open>UHvals\<close>. The code at a call without \<open>UHvals\<close> (the default \<open>None\<close>, as in
  the repository's tests, its example script and \<open>invLSIIR\<close>): the fit stands under
  \<open>if UHvals:\<close>, so \<open>b\<close>, \<open>a\<close> and \<open>unstable\<close> are never assigned and the call ends in
  \<open>UnboundLocalError\<close>, whatever the other arguments are.
\<close>

theorem LSIIR_without_covariance_raises:
  "LSIIR ext Hvals Nb Na f Fs tau justFit verbose max_stab_iter invert UH_None mc_runs
     = Inl UnboundLocalError"
  by (simp add: LSIIR_def truth_value_def)

text \<open>
  C1: the claim has the stabilization loop run while the filter is unstable. The code:
  \<open>check_stability\<close> is true when a root lies outside the unit circle, and
  \<open>unstable = not check_stability(a)\<close>. So when the first fit has a root of modulus greater
  than one (and the fit is run at all, \<open>justFit\<close> not set), the loop is skipped and the
  unstable first fit is returned with the initial \<open>tau\<close>, whatever the budget
  \<open>max_stab_iter\<close> is.
\<close>

theorem LSIIR_unstable_fit_not_stabilized:
  assumes "truth_value UHvals = Inr True"
    and "is_mat (2 * length Hvals) (2 * length Hvals) (cov_rows UHvals)"
    and "\<not> justFit"
    and "\<exists>r \<in> set (np_roots ext (snd (fitIIR ext Hvals tau (omega f Fs)
                 (design_matrix (omega f Fs) Nb Na) Na Nb invert))). 1 < cmod r"
  shows "LSIIR ext Hvals Nb Na f Fs tau justFit verbose max_stab_iter invert UHvals mc_runs
     = Inr (fst (fitIIR ext Hvals tau (omega f Fs) (design_matrix (omega f Fs) Nb Na) Na Nb invert),
            snd (fitIIR ext Hvals tau (omega f Fs) (design_matrix (omega f Fs) Nb Na) Na Nb invert),
            tau)"
proof -
  let ?ba = "fitIIR ext Hvals tau (omega f Fs) (design_matrix (omega f Fs) Nb Na) Na Nb invert"
  from assms(4) have "filter (\<lambda>r. 1 < cmod r) (np_roots ext (snd ?ba)) \<noteq> []"
    by (auto simp: filter_empty_conv)
  then have cs: "check_stability ext (snd ?ba)"
    by (simp add: check_stability_def)
  show ?thesis
    using assms(3) cs by (simp add: LSIIR_fit_run[OF assms(1,2)] Let_def stab_loop_exit)
qed

theorem LSIIR_unstable_fit_not_stabilized_witness:
  "(\<exists>r \<in> set (np_roots env_small [1, - 2]). 1 < cmod r) \<and>
   LSIIR env_small [- 1, 1/3] 0 1 [0, 1/2] 1 0 False False 50 False
     (UH_List [[1, 0, 0, 0], [0, 1, 0, 0], [0, 0, 1, 0], [0, 0, 0, 1]]) 1000
     = Inr ([1], [1, - 2], 0)"
  using LSIIR_unstable_fit_not_stabilized[of
      "UH_List [[1, 0, 0, 0], [0, 1, 0, 0], [0, 0, 1, 0], [0, 0, 0, 1]]" "[- 1, 1/3]" False
      env_small 0 "[0, 1/2]" 1 0 1 False False 50 1000]
  by (simp add: truth_value_def is_mat_def cov_rows_def fit_pole_at_two roots_pole_at_two)

text \<open>
  C6, as stated, fails for an iteration budget of zero: with \<open>justFit\<close> not set,
  \<open>max_stab_iter = 0\<close> and the initial estimate \<open>tau = 5\<close>, the loop is not entered and
  \<open>int(tau) = 5\<close> is returned (a fit of order zero to the single value \<open>H = 1\<close> at \<open>f = 0\<close>).
\<close>

theorem LSIIR_budget_zero_keeps_tau:
  "LSIIR env_small [1] 0 0 [0] 1 5 False False 0 False (UH_List [[1, 0], [0, 1]]) 1000
     = Inr ([1], [1], 5)"
  by (simp add: LSIIR_def truth_value_def is_mat_def cov_rows_def fit_gain stab_loop_exit)

text \<open>
  C6, amended: whenever \<open>LSIIR\<close> runs its fit (a covariance \<open>UHvals\<close> that is true as a
  condition and of the size of the data) with \<open>justFit = True\<close>, it returns the first fit
  with \<open>tau = 0\<close>, regardless of the initial estimate; with \<open>justFit = False\<close> and an
  iteration budget of at most one (so also of zero) it returns the first fit with the
  initial estimate \<open>tau\<close> unchanged.
\<close>

theorem LSIIR_no_stabilization_tau:
  assumes "truth_value UHvals = Inr True"
    and "is_mat (2 * length Hvals) (2 * length Hvals) (cov_rows UHvals)"
  shows "LSIIR ext Hvals Nb Na f Fs tau True verbose max_stab_iter invert UHvals mc_runs
       = Inr (fst (fitIIR ext Hvals tau (omega f Fs) (design_matrix (omega f Fs) Nb Na) Na Nb invert),
              snd (fitIIR ext Hvals tau (omega f Fs) (design_matrix (omega f Fs) Nb Na) Na Nb invert),
              0)
     \<and> (max_stab_iter \<le> 1 \<longrightarrow>
        LSIIR ext Hvals Nb Na f Fs tau False verbose max_stab_iter invert UHvals mc_runs
       = Inr (fst (fitIIR ext Hvals tau (omega f Fs) (design_matrix (omega f Fs) Nb Na) Na Nb invert),
              snd (fitIIR ext Hvals tau (omega f Fs) (design_matrix (omega f Fs) Nb Na) Na Nb invert),
              tau))"
  by (simp add: LSIIR_fit_run[OF assms] Let_def stab_loop_exit)

theorem LSIIR_no_stabilization_tau_witness:
  "LSIIR env_small [1] 0 0 [0] 1 3 True True 0 False (UH_List [[1, 0], [0, 1]]) 7 = Inr ([1], [1], 0)
   \<and> LSIIR env_small [1] 0 0 [0] 1 3 False True 0 False (UH_List [[1, 0], [0, 1]]) 7 = Inr ([1], [1], 3)"
  using LSIIR_no_stabilization_tau[of "UH_List [[1, 0], [0, 1]]" "[1]" env_small 0 0 "[0]" 1 3
      True 0 False 7]
  by (simp add: truth_value_def is_mat_def cov_rows_def fit_gain)

end
